theory Spec2Isabelle
  imports Main "HOL-Library.Sublist" "HOL-Library.Multiset"
begin

section \<open>Paths, as pathlib builds them\<close>

text \<open>
  The scaffolder of \<^verbatim>\<open>init_project.py\<close> works on \<^verbatim>\<open>pathlib.Path\<close> values. A path is
  its root (\<^verbatim>\<open>''\<close>, \<^verbatim>\<open>'/'\<close> or \<^verbatim>\<open>'//'\<close>) and the list of its name components. Parsing a
  string splits it at \<^verbatim>\<open>'/'\<close> and drops empty components and \<^verbatim>\<open>'.'\<close>; \<^verbatim>\<open>'..'\<close> is kept
  as a component, exactly as pathlib keeps it.
\<close>

datatype root = Relative | Slash | DoubleSlash

datatype path = Path (anchor: root) (names: "string list")

fun split_sep :: "char \<Rightarrow> string \<Rightarrow> string list" where
  "split_sep c [] = [[]]"
| "split_sep c (x # xs) =
     (if x = c then [] # split_sep c xs
      else (case split_sep c xs of w # ws \<Rightarrow> (x # w) # ws | [] \<Rightarrow> [[x]]))"

definition rel_parts :: "string \<Rightarrow> string list" where
  "rel_parts s = filter (\<lambda>x. x \<noteq> [] \<and> x \<noteq> ''.'') (split_sep CHR ''/'' s)"

definition splitroot :: "string \<Rightarrow> root \<times> string" where
  "splitroot s =
     (if take 1 s \<noteq> ''/'' then (Relative, s)
      else if take 1 (drop 1 s) \<noteq> ''/'' \<or> take 1 (drop 2 s) = ''/'' then (Slash, drop 1 s)
      else (DoubleSlash, drop 2 s))"

definition parse_path :: "string \<Rightarrow> path" where
  "parse_path s = (case splitroot s of (r, rel) \<Rightarrow> Path r (rel_parts rel))"

text \<open>\<^verbatim>\<open>p / s\<close>: an absolute right operand replaces the left one, a relative one is appended.\<close>

definition joinpath :: "path \<Rightarrow> string \<Rightarrow> path" where
  "joinpath p s =
     (if take 1 s = ''/'' then parse_path s else Path (anchor p) (names p @ rel_parts s))"

definition parent :: "path \<Rightarrow> path" where
  "parent p = Path (anchor p) (butlast (names p))"

definition under :: "path \<Rightarrow> path \<Rightarrow> bool" where
  "under d p \<longleftrightarrow> anchor d = anchor p \<and> prefix (names d) (names p)"

definition strictly_under :: "path \<Rightarrow> path \<Rightarrow> bool" where
  "strictly_under d p \<longleftrightarrow> anchor d = anchor p \<and> strict_prefix (names d) (names p)"

section \<open>The file system\<close>

text \<open>
  A file system maps a path to the node found there. Errors of the system calls are values:
  an \<^verbatim>\<open>OSError\<close> carries its errno and the path given to the call, as Python's exception
  does (\<^verbatim>\<open>FileNotFoundError\<close> is errno \<^verbatim>\<open>ENOENT\<close>, \<^verbatim>\<open>NotADirectoryError\<close> is
  \<^verbatim>\<open>ENOTDIR\<close>, \<^verbatim>\<open>FileExistsError\<close> is \<^verbatim>\<open>EEXIST\<close>, \<^verbatim>\<open>IsADirectoryError\<close> is \<^verbatim>\<open>EISDIR\<close>).
  Paths are compared component by component: symbolic links, permissions, time stamps, the
  space left on the device and the kernel's resolution of \<^verbatim>\<open>'..'\<close> are outside the
  model, and so is what the script prints. A component \<^verbatim>\<open>'..'\<close> is looked up like any
  other name; a name may hold any character and be of any length, where the system calls raise
  \<^verbatim>\<open>ValueError\<close> for a NUL and \<^verbatim>\<open>ENAMETOOLONG\<close> past 255 bytes in a name or 4095 in a
  path; and paths of different roots never meet, where a relative path names a node below the
  working directory. The theorems that say what a run that goes ahead does are therefore
  stated for the paths on which the model is the code (\<open>usable\<close> below): ordinary names,
  within the limits, under one root.
\<close>

datatype node = File string | Dir

type_synonym fs = "path \<Rightarrow> node option"

datatype errno = ENOENT | ENOTDIR | EEXIST | EISDIR

datatype exn = OSError errno path | SameFileError path path

datatype outcome = Returned int | Raised exn

type_synonym action = "fs \<Rightarrow> exn option \<times> fs"

definition ancestors :: "path \<Rightarrow> path list" where
  "ancestors p = map (\<lambda>k. Path (anchor p) (take k (names p))) [0..<length (names p)]"

fun first_bad :: "fs \<Rightarrow> path list \<Rightarrow> errno option" where
  "first_bad fs [] = None"
| "first_bad fs (a # as) =
     (case fs a of
        None \<Rightarrow> Some ENOENT
      | Some (File c) \<Rightarrow> Some ENOTDIR
      | Some Dir \<Rightarrow> first_bad fs as)"

definition walk :: "fs \<Rightarrow> path \<Rightarrow> errno option" where
  "walk fs p = first_bad fs (ancestors p)"

definition stat :: "fs \<Rightarrow> path \<Rightarrow> errno + node" where
  "stat fs p =
     (case walk fs p of
        Some e \<Rightarrow> Inl e
      | None \<Rightarrow> (case fs p of None \<Rightarrow> Inl ENOENT | Some n \<Rightarrow> Inr n))"

definition exists :: "fs \<Rightarrow> path \<Rightarrow> bool" where
  "exists fs p = (case stat fs p of Inl e \<Rightarrow> False | Inr n \<Rightarrow> True)"

definition is_dir :: "fs \<Rightarrow> path \<Rightarrow> bool" where
  "is_dir fs p = (case stat fs p of Inr Dir \<Rightarrow> True | _ \<Rightarrow> False)"

definition os_mkdir :: "path \<Rightarrow> fs \<Rightarrow> exn + fs" where
  "os_mkdir p fs =
     (case walk fs p of
        Some e \<Rightarrow> Inl (OSError e p)
      | None \<Rightarrow> (case fs p of Some n \<Rightarrow> Inl (OSError EEXIST p) | None \<Rightarrow> Inr (fs(p \<mapsto> Dir))))"

definition is_FileNotFoundError :: "exn \<Rightarrow> bool" where
  "is_FileNotFoundError e = (case e of OSError ENOENT q \<Rightarrow> True | _ \<Rightarrow> False)"

text \<open>
  \<^verbatim>\<open>Path.mkdir(parents, exist_ok)\<close>: try the system call; on \<^verbatim>\<open>FileNotFoundError\<close> with
  \<^verbatim>\<open>parents\<close> make the parent first and retry without \<^verbatim>\<open>parents\<close>; any other error is
  raised again unless \<^verbatim>\<open>exist_ok\<close> holds and the path is a directory.
\<close>

function mkdir :: "path \<Rightarrow> bool \<Rightarrow> bool \<Rightarrow> action" where
  "mkdir p parents exist_ok fs =
     (case os_mkdir p fs of
        Inr fs' \<Rightarrow> (None, fs')
      | Inl e \<Rightarrow>
          (if is_FileNotFoundError e then
             (if \<not> parents \<or> parent p = p then (Some e, fs)
              else (case mkdir (parent p) True True fs of
                      (Some e', fs1) \<Rightarrow> (Some e', fs1)
                    | (None, fs1) \<Rightarrow> mkdir p False exist_ok fs1))
           else if \<not> exist_ok \<or> \<not> is_dir fs p then (Some e, fs)
           else (None, fs)))"
  by pat_completeness auto
termination
proof (relation "measure (\<lambda>(p, parents, exist_ok, fs). 2 * length (names p) + (if parents then 1 else 0))")
  fix p :: path and parents exist_ok :: bool and fs :: fs and e :: exn
  assume "\<not> (\<not> parents \<or> parent p = p)"
  then have "parents \<and> names p \<noteq> []"
    by (cases p) (auto simp: parent_def)
  then show "((parent p, True, True, fs), p, parents, exist_ok, fs)
      \<in> measure (\<lambda>(p, parents, exist_ok, fs). 2 * length (names p) + (if parents then 1 else 0))"
    by (cases "names p") (auto simp: parent_def)
qed auto

declare mkdir.simps [simp del]

text \<open>
  \<^verbatim>\<open>Path.touch()\<close> with its default \<^verbatim>\<open>exist_ok=True\<close>: an existing path only gets a new
  time stamp; otherwise the file is created empty.
\<close>

definition touch :: "path \<Rightarrow> action" where
  "touch p fs =
     (if exists fs p then (None, fs)
      else (case walk fs p of
              Some e \<Rightarrow> (Some (OSError e p), fs)
            | None \<Rightarrow> (None, fs(p \<mapsto> File []))))"

text \<open>Opening a path for writing and writing \<open>data\<close>: \<^verbatim>\<open>Path.write_text\<close>.\<close>

definition write_text :: "path \<Rightarrow> string \<Rightarrow> action" where
  "write_text p data fs =
     (case walk fs p of
        Some e \<Rightarrow> (Some (OSError e p), fs)
      | None \<Rightarrow>
          (case fs p of
             Some Dir \<Rightarrow> (Some (OSError EISDIR p), fs)
           | _ \<Rightarrow> (None, fs(p \<mapsto> File data))))"

definition samefile :: "fs \<Rightarrow> path \<Rightarrow> path \<Rightarrow> bool" where
  "samefile fs a b \<longleftrightarrow> exists fs a \<and> exists fs b \<and> a = b"

definition copyfile :: "path \<Rightarrow> path \<Rightarrow> action" where
  "copyfile src dst fs =
     (if samefile fs src dst then (Some (SameFileError src dst), fs)
      else (case stat fs src of
              Inl e \<Rightarrow> (Some (OSError e src), fs)
            | Inr Dir \<Rightarrow> (Some (OSError EISDIR src), fs)
            | Inr (File c) \<Rightarrow> write_text dst c fs))"

text \<open>
  \<^verbatim>\<open>shutil.copy(src, dst)\<close>: a destination that is a directory stands for the file of the
  source's base name inside it.
\<close>

definition copy :: "path \<Rightarrow> path \<Rightarrow> action" where
  "copy src dst fs =
     (let dst' = (if is_dir fs dst \<and> names src \<noteq> []
                  then Path (anchor dst) (names dst @ [last (names src)]) else dst)
      in copyfile src dst' fs)"

section \<open>The scaffolder\<close>

type_synonym manifest = "(string \<times> string) list"

definition TEMPLATES :: manifest where
  "TEMPLATES =
     [(''app/__init__.py'', ''''),
      (''app/main.py'', ''main.py''),
      (''app/core/__init__.py'', ''''),
      (''app/core/config.py'', ''config.py''),
      (''app/core/dependencies.py'', ''dependencies.py''),
      (''app/routers/__init__.py'', ''routers_init.py''),
      (''app/routers/health.py'', ''router_health.py''),
      (''app/services/__init__.py'', ''''),
      (''app/services/health_service.py'', ''service_health.py''),
      (''app/schemas/__init__.py'', ''''),
      (''app/schemas/health.py'', ''schemas_health.py''),
      (''tests/__init__.py'', ''''),
      (''tests/conftest.py'', ''conftest.py'')]"

definition ROOT_FILES :: manifest where
  "ROOT_FILES =
     [(''Dockerfile'', ''Dockerfile''),
      (''docker-compose.yml'', ''docker-compose.yml''),
      (''docker-compose.override.yml'', ''docker-compose.override.yml''),
      (''docker-compose.prod.yml'', ''docker-compose.prod.yml''),
      (''requirements.txt'', ''requirements.txt''),
      (''pyproject.toml'', ''pyproject.toml'')]"

definition seq :: "action \<Rightarrow> action \<Rightarrow> action" where
  "seq f g fs = (case f fs of (None, fs') \<Rightarrow> g fs' | (Some e, fs') \<Rightarrow> (Some e, fs'))"

text \<open>The body of the first loop of \<^verbatim>\<open>create_project\<close>, for one manifest entry.\<close>

definition copy_template :: "path \<Rightarrow> path \<Rightarrow> string \<times> string \<Rightarrow> action" where
  "copy_template assets_dir project_dir entry =
     (case entry of (target_path, source_file) \<Rightarrow>
        (let target = joinpath project_dir target_path in
         seq (mkdir (parent target) True True)
           (\<lambda>fs. if source_file \<noteq> [] then
                    (let source = joinpath assets_dir source_file in
                     if exists fs source then copy source target fs else touch target fs)
                  else touch target fs)))"

fun copy_templates :: "path \<Rightarrow> path \<Rightarrow> manifest \<Rightarrow> action" where
  "copy_templates assets_dir project_dir [] fs = (None, fs)"
| "copy_templates assets_dir project_dir (entry # rest) fs =
     seq (copy_template assets_dir project_dir entry)
         (copy_templates assets_dir project_dir rest) fs"

text \<open>The body of the second loop, for one entry of the root manifest.\<close>

definition copy_root_file :: "path \<Rightarrow> path \<Rightarrow> string \<times> string \<Rightarrow> action" where
  "copy_root_file assets_dir project_dir entry fs =
     (case entry of (target_file, source_file) \<Rightarrow>
        (let target = joinpath project_dir target_file;
             source = joinpath assets_dir source_file
         in if exists fs source then copy source target fs else (None, fs)))"

fun copy_root_files :: "path \<Rightarrow> path \<Rightarrow> manifest \<Rightarrow> action" where
  "copy_root_files assets_dir project_dir [] fs = (None, fs)"
| "copy_root_files assets_dir project_dir (entry # rest) fs =
     seq (copy_root_file assets_dir project_dir entry)
         (copy_root_files assets_dir project_dir rest) fs"

definition nl :: char where
  "nl = CHR 0x0A"

definition env_text :: string where
  "env_text = ''PROJECT_NAME=fastapi-app'' @ [nl] @ ''VERSION=0.1.0'' @ [nl] @ ''DEBUG=false'' @ [nl]"

definition readme_text :: "string \<Rightarrow> string" where
  "readme_text project_name =
     ''# '' @ project_name @ [nl, nl] @ ''FastAPI Clean Architecture Application'' @ [nl]"

text \<open>
  \<^verbatim>\<open>create_project\<close> with the two manifests and the directory of the script
  (\<^verbatim>\<open>Path(__file__).parent\<close>) as parameters. The result is what the call returns, or the
  exception that leaves it, and the file system as the call leaves it.
\<close>

definition create_project_with ::
    "manifest \<Rightarrow> manifest \<Rightarrow> path \<Rightarrow> string \<Rightarrow> path \<Rightarrow> fs \<Rightarrow> outcome \<times> fs" where
  "create_project_with templates root_files assets_dir project_name output_dir fs =
     (let project_dir = joinpath output_dir project_name in
      if exists fs project_dir then (Returned 1, fs)
      else
        (case seq (mkdir project_dir True False)
               (seq (copy_templates assets_dir project_dir templates)
               (seq (copy_root_files assets_dir project_dir root_files)
               (seq (write_text (joinpath project_dir ''.env.example'') env_text)
                    (write_text (joinpath project_dir ''README.md'') (readme_text project_name)))))
               fs of
           (Some e, fs') \<Rightarrow> (Raised e, fs')
         | (None, fs') \<Rightarrow> (Returned 0, fs')))"

definition create_project :: "path \<Rightarrow> string \<Rightarrow> path \<Rightarrow> fs \<Rightarrow> outcome \<times> fs" where
  "create_project = create_project_with TEMPLATES ROOT_FILES"

section \<open>Vocabulary of the properties\<close>

text \<open>
  A file system is well formed when the roots are directories and whatever lies at a path
  lies in a directory. The theorems about whole runs are stated for such file systems.
\<close>

definition wf_fs :: "fs \<Rightarrow> bool" where
  "wf_fs fs \<longleftrightarrow> (\<forall>r. fs (Path r []) = Some Dir) \<and> (\<forall>p. fs p \<noteq> None \<longrightarrow> fs (parent p) = Some Dir)"

text \<open>
  What the operations may change, seen from a project directory \<open>d\<close>: \<open>dirs_added p\<close>
  allows new directories at \<open>p\<close> and above it; \<open>grows d\<close> allows new directories at \<open>d\<close>,
  above it and below it, and regular files written strictly below it. Nothing is removed and
  no directory is replaced.
\<close>

definition dirs_added :: "path \<Rightarrow> fs \<Rightarrow> fs \<Rightarrow> bool" where
  "dirs_added p fs fs' \<longleftrightarrow> (\<forall>q. fs' q = fs q \<or> (fs q = None \<and> fs' q = Some Dir \<and> under q p))"

definition grows :: "path \<Rightarrow> fs \<Rightarrow> fs \<Rightarrow> bool" where
  "grows d fs fs' \<longleftrightarrow>
     (\<forall>q. fs' q = fs q
        \<or> (fs q = None \<and> fs' q = Some Dir \<and> (under q d \<or> strictly_under d q))
        \<or> (fs q \<noteq> Some Dir \<and> (\<exists>c. fs' q = Some (File c)) \<and> strictly_under d q))"

text \<open>
  The file systems that the steps of a successful run produce: \<open>mk_dirs p\<close> after
  \<^verbatim>\<open>mkdir(parents=True)\<close> of \<open>p\<close>; \<open>nested_result\<close> after the loop over the nested manifest
  (each target holds \<open>content\<close>, the asset's text or nothing; the directories above the
  targets exist); \<open>root_result\<close> after the loop over the root manifest (a target is written
  when its asset is a regular file). Both are given by the set of entries, not by their order.
  \<open>nested_ready\<close> and \<open>root_ready\<close> say when a loop runs through without an error.
\<close>

definition mk_dirs :: "path \<Rightarrow> fs \<Rightarrow> fs" where
  "mk_dirs p fs = (\<lambda>q. if under q p then Some Dir else fs q)"

definition content :: "fs \<Rightarrow> path \<Rightarrow> string \<times> string \<Rightarrow> string" where
  "content fs a e =
     (if snd e = [] then []
      else (case fs (joinpath a (snd e)) of Some (File c) \<Rightarrow> c | _ \<Rightarrow> []))"

definition nested_result :: "path \<Rightarrow> path \<Rightarrow> manifest \<Rightarrow> fs \<Rightarrow> fs" where
  "nested_result a d m fs =
     (\<lambda>q. case map_of (map (\<lambda>e. (joinpath d (fst e), content fs a e)) m) q of
            Some c \<Rightarrow> Some (File c)
          | None \<Rightarrow> if (\<exists>e\<in>set m. under q (parent (joinpath d (fst e)))) then Some Dir else fs q)"

definition nested_ready :: "path \<Rightarrow> path \<Rightarrow> manifest \<Rightarrow> fs \<Rightarrow> bool" where
  "nested_ready a d m fs \<longleftrightarrow>
     wf_fs fs \<and> fs d = Some Dir \<and> distinct (map (\<lambda>e. joinpath d (fst e)) m)
     \<and> (\<forall>e\<in>set m. strictly_under d (joinpath d (fst e)) \<and> fs (joinpath d (fst e)) = None
           \<and> (\<forall>q. under q (parent (joinpath d (fst e))) \<longrightarrow> (\<forall>c. fs q \<noteq> Some (File c)))
           \<and> (snd e \<noteq> [] \<longrightarrow> fs (joinpath a (snd e)) \<noteq> Some Dir \<and> \<not> under d (joinpath a (snd e))))
     \<and> (\<forall>e\<in>set m. \<forall>e'\<in>set m. \<not> strictly_under (joinpath d (fst e)) (joinpath d (fst e')))"

definition root_result :: "path \<Rightarrow> path \<Rightarrow> manifest \<Rightarrow> fs \<Rightarrow> fs" where
  "root_result a d m fs =
     (\<lambda>q. case map_of (map (\<lambda>e. (joinpath d (fst e), fs (joinpath a (snd e)))) m) q of
            Some (Some (File c)) \<Rightarrow> Some (File c)
          | _ \<Rightarrow> fs q)"

definition root_step :: "path \<Rightarrow> path \<Rightarrow> string \<times> string \<Rightarrow> fs \<Rightarrow> fs" where
  "root_step a d e fs =
     (case fs (joinpath a (snd e)) of
        Some (File c) \<Rightarrow> fs(joinpath d (fst e) \<mapsto> File c)
      | _ \<Rightarrow> fs)"

definition root_ready :: "path \<Rightarrow> path \<Rightarrow> manifest \<Rightarrow> fs \<Rightarrow> bool" where
  "root_ready a d m fs \<longleftrightarrow>
     wf_fs fs \<and> distinct (map (\<lambda>e. joinpath d (fst e)) m)
     \<and> (\<forall>e\<in>set m. strictly_under d (joinpath d (fst e))
           \<and> fs (parent (joinpath d (fst e))) = Some Dir
           \<and> fs (joinpath d (fst e)) \<noteq> Some Dir
           \<and> fs (joinpath a (snd e)) \<noteq> Some Dir \<and> \<not> under d (joinpath a (snd e)))
     \<and> (\<forall>e\<in>set m. \<forall>e'\<in>set m. parent (joinpath d (fst e')) \<noteq> joinpath d (fst e))"

text \<open>
  The paths on which the model above is the code. The model compares paths component by
  component and knows no limits, so the theorems about runs that go ahead are stated for
  paths made of ordinary names. \<open>single_segment\<close>: one usable path component, that is 1 to
  255 ASCII characters other than NUL and \<^verbatim>\<open>/\<close>, and neither \<^verbatim>\<open>.\<close> nor \<^verbatim>\<open>..\<close> (a NUL
  makes the system calls raise \<^verbatim>\<open>ValueError\<close>, a longer name \<^verbatim>\<open>ENAMETOOLONG\<close>, \<^verbatim>\<open>..\<close> is
  resolved by the kernel, and text outside ASCII depends on the encoding in use).
  \<open>usable\<close>: every component is such a name, and the path is within the limits on its
  depth and on the length of its text. \<open>roomy\<close>: the same with room left for the names
  that the scaffolder appends. \<open>paths_usable\<close>: the project directory, every target of the
  manifests and the two synthesized files are usable.
\<close>

definition single_segment :: "string \<Rightarrow> bool" where
  "single_segment s \<longleftrightarrow>
     s \<noteq> [] \<and> length s \<le> 255
     \<and> (\<forall>c\<in>set s. c \<noteq> CHR 0x00 \<and> c \<noteq> CHR ''/'' \<and> of_char c < (128 :: nat))
     \<and> s \<noteq> ''.'' \<and> s \<noteq> ''..''"

definition path_len :: "path \<Rightarrow> nat" where
  "path_len p =
     (case anchor p of Relative \<Rightarrow> 0 | Slash \<Rightarrow> 1 | DoubleSlash \<Rightarrow> 2)
     + sum_list (map length (names p)) + length (names p)"

definition usable :: "path \<Rightarrow> bool" where
  "usable p \<longleftrightarrow>
     (\<forall>x\<in>set (names p). single_segment x) \<and> length (names p) \<le> 500 \<and> path_len p \<le> 4095"

definition roomy :: "path \<Rightarrow> bool" where
  "roomy p \<longleftrightarrow>
     (\<forall>x\<in>set (names p). single_segment x) \<and> length (names p) \<le> 400 \<and> path_len p \<le> 2500"

definition paths_usable :: "path \<Rightarrow> manifest \<Rightarrow> manifest \<Rightarrow> bool" where
  "paths_usable d n r \<longleftrightarrow>
     usable d
     \<and> (\<forall>e\<in>set n. usable (joinpath d (fst e)))
     \<and> (\<forall>e\<in>set r. usable (joinpath d (fst e)))
     \<and> usable (joinpath d ''.env.example'') \<and> usable (joinpath d ''README.md'')"

text \<open>
  Conditions on the manifests and on the assets. \<open>layout_ok\<close>: the targets are relative
  paths made of usable names, different from each other, none is a proper prefix of another,
  and the root targets are single segments. \<open>asset_ok\<close>: the asset path is usable, has the
  root of the project directory (so that comparing the two component by component compares
  the files), is not a directory and lies neither under nor above the project directory, so
  that the run neither writes it nor makes it a directory. \<open>scaffoldable\<close>: the run with the
  manifests of the script can go ahead, because the project directory does not exist, no
  regular file is in the way above it, all paths of the run are usable and the assets are
  fine. \<open>fails_at\<close>: the run with the manifests of the script gets as far as the entry
  \<open>e\<close> of the nested manifest, whose asset is a directory.
\<close>

definition layout_ok :: "manifest \<Rightarrow> manifest \<Rightarrow> bool" where
  "layout_ok n r \<longleftrightarrow>
     (\<forall>e\<in>set n. \<forall>x\<in>set (rel_parts (fst e)). single_segment x)
   \<and> (\<forall>e\<in>set r. \<forall>x\<in>set (rel_parts (fst e)). single_segment x)
   \<and> (\<forall>e\<in>set n. take 1 (fst e) \<noteq> ''/'' \<and> rel_parts (fst e) \<noteq> [])
   \<and> (\<forall>e\<in>set r. take 1 (fst e) \<noteq> ''/'' \<and> length (rel_parts (fst e)) = 1)
   \<and> distinct (map (\<lambda>e. rel_parts (fst e)) n)
   \<and> distinct (map (\<lambda>e. rel_parts (fst e)) r)
   \<and> (\<forall>e\<in>set n. \<forall>e'\<in>set n. \<not> strict_prefix (rel_parts (fst e)) (rel_parts (fst e')))
   \<and> (\<forall>e\<in>set r. \<forall>e'\<in>set n. \<not> strict_prefix (rel_parts (fst e)) (rel_parts (fst e')))"

definition asset_ok :: "fs \<Rightarrow> path \<Rightarrow> path \<Rightarrow> bool" where
  "asset_ok fs d s \<longleftrightarrow>
     usable s \<and> anchor s = anchor d \<and> fs s \<noteq> Some Dir \<and> \<not> under d s \<and> \<not> under s d"

definition assets_ok :: "path \<Rightarrow> path \<Rightarrow> manifest \<Rightarrow> manifest \<Rightarrow> fs \<Rightarrow> bool" where
  "assets_ok a d n r fs \<longleftrightarrow>
     (\<forall>e\<in>set n. snd e \<noteq> [] \<longrightarrow> asset_ok fs d (joinpath a (snd e)))
   \<and> (\<forall>e\<in>set r. asset_ok fs d (joinpath a (snd e)))"

definition asset_keys :: "string list" where
  "asset_keys = filter (\<lambda>k. k \<noteq> []) (map snd TEMPLATES) @ map snd ROOT_FILES"

definition scaffoldable :: "path \<Rightarrow> path \<Rightarrow> fs \<Rightarrow> bool" where
  "scaffoldable a d fs \<longleftrightarrow>
     wf_fs fs \<and> fs d = None \<and> (\<forall>q. under q d \<longrightarrow> (\<forall>c. fs q \<noteq> Some (File c)))
     \<and> paths_usable d TEMPLATES ROOT_FILES
     \<and> assets_ok a d TEMPLATES ROOT_FILES fs"


text \<open>
  An existing directory with nothing in it; the first line of a text.
\<close>

definition empty_dir :: "fs \<Rightarrow> path \<Rightarrow> bool" where
  "empty_dir fs p \<longleftrightarrow> fs p = Some Dir \<and> (\<forall>q. strictly_under p q \<longrightarrow> fs q = None)"

definition first_line :: "string \<Rightarrow> string" where
  "first_line s = takeWhile (\<lambda>c. c \<noteq> nl) s"

text \<open>
  Concrete file systems, given by their entries: the assets of the repository under
  \<^verbatim>\<open>/srv/assets\<close> (each file stands for its first line) and an empty \<^verbatim>\<open>/tmp/out\<close>; the
  same with a \<^verbatim>\<open>Dockerfile\<close> asset; the same with a directory in the place of the asset
  \<^verbatim>\<open>config.py\<close>.
\<close>

definition fs_of :: "(path \<times> node) list \<Rightarrow> fs" where
  "fs_of es = (\<lambda>p. if names p = [] then Some Dir else map_of es p)"

definition example_assets :: path where
  "example_assets = Path Slash [''srv'', ''assets'']"

definition example_entries :: "(path \<times> node) list" where
  "example_entries =
     [(Path Slash [''srv''], Dir),
      (Path Slash [''srv'', ''assets''], Dir),
      (Path Slash [''srv'', ''assets'', ''init_project.py''], File ''#!/usr/bin/env python3''),
      (Path Slash [''srv'', ''assets'', ''main.py''], File ''from contextlib import asynccontextmanager''),
      (Path Slash [''srv'', ''assets'', ''config.py''], File ''from pydantic_settings import BaseSettings''),
      (Path Slash [''srv'', ''assets'', ''dependencies.py''], File ''from typing import Annotated''),
      (Path Slash [''srv'', ''assets'', ''routers_init.py''], File ''from fastapi import APIRouter''),
      (Path Slash [''srv'', ''assets'', ''router_health.py''], File ''from fastapi import APIRouter, HTTPException''),
      (Path Slash [''srv'', ''assets'', ''service_health.py''], File ''from datetime import datetime''),
      (Path Slash [''srv'', ''assets'', ''schemas_health.py''], File ''from pydantic import BaseModel''),
      (Path Slash [''tmp''], Dir),
      (Path Slash [''tmp'', ''out''], Dir)]"

definition example_fs :: fs where
  "example_fs = fs_of example_entries"

definition example_fs_docker :: fs where
  "example_fs_docker =
     fs_of ((Path Slash [''srv'', ''assets'', ''Dockerfile''], File ''FROM python:3.12-slim'') # example_entries)"

definition example_fs_broken :: fs where
  "example_fs_broken =
     fs_of ((Path Slash [''srv'', ''assets'', ''config.py''], Dir) # example_entries)"

section \<open>Paths and the walk to a path\<close>

lemma under_refl [simp]: "under p p"
  by (simp add: under_def)

lemma under_trans: "under a b \<Longrightarrow> under b c \<Longrightarrow> under a c"
  by (auto simp: under_def)

lemma under_antisym: "under a b \<Longrightarrow> under b a \<Longrightarrow> a = b"
  by (cases a; cases b) (auto simp: under_def intro: prefix_order.antisym)

lemma strictly_under_iff: "strictly_under d p \<longleftrightarrow> under d p \<and> d \<noteq> p"
  by (cases d; cases p) (auto simp: strictly_under_def under_def strict_prefix_def)

lemma under_parent [simp]: "under (parent p) p"
  by (simp add: under_def parent_def prefixeq_butlast)

lemma under_parent_iff: "under q p \<longleftrightarrow> q = p \<or> (names p \<noteq> [] \<and> under q (parent p))"
proof (cases "names p" rule: rev_cases)
  case Nil
  then show ?thesis by (cases p; cases q) (auto simp: under_def)
next
  case (snoc xs x)
  then show ?thesis by (cases p; cases q) (auto simp: under_def parent_def)
qed

lemma under_comparable: "under a c \<Longrightarrow> under b c \<Longrightarrow> under a b \<or> under b a"
  by (auto simp: under_def dest: prefix_same_cases)

lemma parent_root [simp]: "parent (Path r []) = Path r []"
  by (simp add: parent_def)

lemma parent_eq_iff: "parent p = p \<longleftrightarrow> names p = []"
  by (cases p; cases "names p" rule: rev_cases) (auto simp: parent_def)

lemma set_ancestors: "set (ancestors p) = {q. strictly_under q p}"
proof (intro set_eqI iffI; clarify)
  fix q assume "q \<in> set (ancestors p)"
  then obtain k where k: "k < length (names p)" "q = Path (anchor p) (take k (names p))"
    by (auto simp: ancestors_def)
  then show "strictly_under q p"
    by (auto simp: strictly_under_def strict_prefix_def take_is_prefix)
next
  fix q assume "strictly_under q p"
  then obtain zs where z: "names p = names q @ zs" "zs \<noteq> []" "anchor q = anchor p"
    by (auto simp: strictly_under_def strict_prefix_def prefix_def)
  then have "q = Path (anchor p) (take (length (names q)) (names p))" "length (names q) < length (names p)"
    by (cases q; auto)+
  then show "q \<in> set (ancestors p)"
    unfolding ancestors_def by (metis (no_types, lifting) atLeastLessThan_iff image_eqI le0 set_map set_upt)
qed

lemma first_bad_None_iff: "first_bad fs ps = None \<longleftrightarrow> (\<forall>a\<in>set ps. fs a = Some Dir)"
  by (induction ps) (auto split: option.splits node.splits)

lemma walk_None_iff: "walk fs p = None \<longleftrightarrow> (\<forall>q. strictly_under q p \<longrightarrow> fs q = Some Dir)"
  by (simp add: walk_def first_bad_None_iff set_ancestors)

lemma first_bad_no_file:
  "\<forall>a\<in>set ps. \<forall>c. fs a \<noteq> Some (File c) \<Longrightarrow> first_bad fs ps = None \<or> first_bad fs ps = Some ENOENT"
  by (induction ps) (auto split: option.splits node.splits)

lemma walk_no_file:
  "\<forall>q. strictly_under q p \<longrightarrow> (\<forall>c. fs q \<noteq> Some (File c)) \<Longrightarrow> walk fs p = None \<or> walk fs p = Some ENOENT"
  unfolding walk_def by (rule first_bad_no_file) (simp add: set_ancestors)

lemma wf_prefix_dir:
  assumes "wf_fs fs" "fs q \<noteq> None" "under p q" "p \<noteq> q"
  shows "fs p = Some Dir"
  using assms(2-)
proof (induction "length (names q)" arbitrary: q)
  case 0
  then show ?case by (cases p; cases q) (auto simp: under_def)
next
  case (Suc n)
  then have ne: "names q \<noteq> []" by auto
  have par: "fs (parent q) = Some Dir" using assms(1) Suc.prems(1) by (auto simp: wf_fs_def)
  from Suc.prems have "under p (parent q)" using under_parent_iff[of p q] by auto
  show ?case
  proof (cases "p = parent q")
    case True
    then show ?thesis using par by simp
  next
    case False
    have "n = length (names (parent q))" using Suc.hyps(2) by (simp add: parent_def)
    then show ?thesis using Suc.hyps(1)[of "parent q"] par \<open>under p (parent q)\<close> False by simp
  qed
qed

lemma wf_walk: "wf_fs fs \<Longrightarrow> fs p \<noteq> None \<Longrightarrow> walk fs p = None"
  by (auto simp: walk_None_iff strictly_under_iff dest: wf_prefix_dir)

lemma wf_walk_parent: "wf_fs fs \<Longrightarrow> fs (parent p) = Some Dir \<Longrightarrow> walk fs p = None"
  unfolding walk_None_iff strictly_under_iff
  by (metis option.distinct(1) under_parent_iff wf_prefix_dir)

lemma wf_exists: "wf_fs fs \<Longrightarrow> exists fs p \<longleftrightarrow> fs p \<noteq> None"
  by (auto simp: exists_def stat_def wf_walk split: option.splits)

lemma wf_is_dir: "wf_fs fs \<Longrightarrow> is_dir fs p \<longleftrightarrow> fs p = Some Dir"
  by (auto simp: is_dir_def stat_def wf_walk split: option.splits node.splits)

lemma wf_stat: "wf_fs fs \<Longrightarrow> fs p = Some n \<Longrightarrow> stat fs p = Inr n"
  by (auto simp: stat_def wf_walk split: option.splits)

lemma wf_root: "wf_fs fs \<Longrightarrow> names p = [] \<Longrightarrow> fs p = Some Dir"
  by (cases p) (auto simp: wf_fs_def)

section \<open>What one operation does\<close>

lemma mk_dirs_wf:
  assumes "wf_fs fs" "\<forall>q. under q p \<longrightarrow> (\<forall>c. fs q \<noteq> Some (File c))"
  shows "wf_fs (mk_dirs p fs)"
  unfolding wf_fs_def mk_dirs_def
proof (intro conjI allI impI)
  fix r show "(if under (Path r []) p then Some Dir else fs (Path r [])) = Some Dir"
    using assms(1) by (simp add: wf_fs_def)
next
  fix x assume x: "(if under x p then Some Dir else fs x) \<noteq> None"
  show "(if under (parent x) p then Some Dir else fs (parent x)) = Some Dir"
  proof (cases "under x p")
    case True
    have "under (parent x) p" by (rule under_trans[OF under_parent True])
    then show ?thesis by simp
  next
    case False
    with x have "fs x \<noteq> None" by simp
    then have "fs (parent x) = Some Dir" using assms(1) by (simp add: wf_fs_def)
    then show ?thesis by simp
  qed
qed

lemma mk_dirs_id:
  assumes "wf_fs fs" "fs p = Some Dir"
  shows "mk_dirs p fs = fs"
proof (rule ext)
  fix q
  show "mk_dirs p fs q = fs q"
  proof (cases "under q p")
    case True
    have "fs q = Some Dir"
    proof (cases "q = p")
      case True then show ?thesis using assms(2) by simp
    next
      case False
      show ?thesis by (rule wf_prefix_dir[OF assms(1) _ True False]) (simp add: assms(2))
    qed
    then show ?thesis using True by (simp add: mk_dirs_def)
  next
    case False
    then show ?thesis by (simp add: mk_dirs_def)
  qed
qed

lemma not_under_parent:
  assumes "names p \<noteq> []"
  shows "\<not> under p (parent p)"
proof
  assume "under p (parent p)"
  then have "prefix (names p) (butlast (names p))" by (simp add: under_def parent_def)
  then have "length (names p) \<le> length (butlast (names p))" by (rule prefix_length_le)
  moreover have "0 < length (names p)" using assms by simp
  ultimately show False unfolding length_butlast by linarith
qed

lemma mk_dirs_step:
  assumes "names p \<noteq> []"
  shows "(mk_dirs (parent p) fs)(p \<mapsto> Dir) = mk_dirs p fs"
proof (rule ext)
  fix q
  have "under q p \<longleftrightarrow> q = p \<or> under q (parent p)"
    using under_parent_iff[of q p] assms by simp
  then show "((mk_dirs (parent p) fs)(p \<mapsto> Dir)) q = mk_dirs p fs q"
    by (simp add: mk_dirs_def)
qed

lemma os_mkdir_new:
  "wf_fs fs \<Longrightarrow> fs p = None \<Longrightarrow> fs (parent p) = Some Dir \<Longrightarrow> os_mkdir p fs = Inr (fs(p \<mapsto> Dir))"
  by (simp add: os_mkdir_def wf_walk_parent)

lemma mkdir_ok:
  assumes wf: "wf_fs fs"
  shows "\<forall>q. under q p \<longrightarrow> (\<forall>c. fs q \<noteq> Some (File c)) \<Longrightarrow> exist_ok \<or> fs p = None
     \<Longrightarrow> mkdir p True exist_ok fs = (None, mk_dirs p fs)"
proof (induction "length (names p)" arbitrary: p exist_ok rule: less_induct)
  case less
  have nofile: "\<And>q c. under q p \<Longrightarrow> fs q \<noteq> Some (File c)" using less.prems(1) by blast
  show ?case
  proof (cases "fs p")
    case (Some n)
    then have d: "fs p = Some Dir" using nofile[of p] by (cases n) auto
    have eo: exist_ok using less.prems(2) Some by simp
    have "os_mkdir p fs = Inl (OSError EEXIST p)"
      using d wf by (simp add: os_mkdir_def wf_walk)
    moreover have "is_dir fs p" using d wf by (simp add: wf_is_dir)
    ultimately have "mkdir p True exist_ok fs = (None, fs)"
      using eo by (subst mkdir.simps) (simp add: is_FileNotFoundError_def)
    then show ?thesis using mk_dirs_id[OF wf d] by simp
  next
    case None
    then have ne: "names p \<noteq> []" using wf_root[OF wf] by fastforce
    show ?thesis
    proof (cases "fs (parent p)")
      case (Some n)
      then have d: "fs (parent p) = Some Dir" using nofile[of "parent p"] by (cases n) auto
      have "os_mkdir p fs = Inr (fs(p \<mapsto> Dir))" using os_mkdir_new[OF wf None d] .
      then have "mkdir p True exist_ok fs = (None, fs(p \<mapsto> Dir))"
        by (subst mkdir.simps) simp
      moreover have "mk_dirs (parent p) fs = fs" using mk_dirs_id[OF wf d] .
      ultimately show ?thesis using mk_dirs_step[OF ne, of fs] by simp
    next
      case pn: None
      have "strictly_under (parent p) p" using ne by (simp add: strictly_under_iff parent_eq_iff)
      then have "walk fs p \<noteq> None" using pn by (auto simp: walk_None_iff)
      moreover have "walk fs p = None \<or> walk fs p = Some ENOENT"
        by (rule walk_no_file) (auto simp: strictly_under_iff dest: nofile)
      ultimately have w: "walk fs p = Some ENOENT" by (cases "walk fs p") auto
      then have om: "os_mkdir p fs = Inl (OSError ENOENT p)" by (simp add: os_mkdir_def)
      let ?fs1 = "mk_dirs (parent p) fs"
      have "length (names (parent p)) < length (names p)" using ne by (simp add: parent_def)
      moreover have "\<forall>q. under q (parent p) \<longrightarrow> (\<forall>c. fs q \<noteq> Some (File c))"
        using nofile under_trans[OF _ under_parent] by blast
      ultimately have ih: "mkdir (parent p) True True fs = (None, ?fs1)"
        using less.hyps[of "parent p" True] by simp
      have wf1: "wf_fs ?fs1"
        by (rule mk_dirs_wf[OF wf]) (use nofile under_trans[OF _ under_parent] in blast)
      have "?fs1 p = None" using not_under_parent[OF ne] None by (simp add: mk_dirs_def)
      moreover have "?fs1 (parent p) = Some Dir" by (simp add: mk_dirs_def)
      ultimately have "os_mkdir p ?fs1 = Inr (?fs1(p \<mapsto> Dir))" using os_mkdir_new[OF wf1] by simp
      then have "mkdir p False exist_ok ?fs1 = (None, ?fs1(p \<mapsto> Dir))"
        by (subst mkdir.simps) simp
      then have "mkdir p True exist_ok fs = (None, ?fs1(p \<mapsto> Dir))"
        using om ih ne by (subst mkdir.simps) (simp add: is_FileNotFoundError_def parent_eq_iff)
      then show ?thesis using mk_dirs_step[OF ne, of fs] by simp
    qed
  qed
qed

lemma wf_upd_file:
  assumes "wf_fs fs" "fs (parent p) = Some Dir" "fs p \<noteq> Some Dir"
  shows "wf_fs (fs(p \<mapsto> File c))"
proof -
  have ne: "names p \<noteq> []" using assms(1,3) wf_root by blast
  then have pp: "parent p \<noteq> p" by (simp add: parent_eq_iff)
  show ?thesis
    unfolding wf_fs_def
  proof (intro conjI allI impI)
    fix r show "(fs(p \<mapsto> File c)) (Path r []) = Some Dir"
      using ne assms(1) by (auto simp: wf_fs_def)
  next
    fix x assume "(fs(p \<mapsto> File c)) x \<noteq> None"
    then have "fs (parent x) = Some Dir"
      using assms(1,2) by (auto simp: wf_fs_def split: if_splits)
    then show "(fs(p \<mapsto> File c)) (parent x) = Some Dir"
      using assms(3) by auto
  qed
qed

lemma touch_new:
  "wf_fs fs \<Longrightarrow> fs p = None \<Longrightarrow> fs (parent p) = Some Dir \<Longrightarrow> touch p fs = (None, fs(p \<mapsto> File []))"
  by (simp add: touch_def wf_exists wf_walk_parent)

lemma write_text_ok:
  "wf_fs fs \<Longrightarrow> fs (parent p) = Some Dir \<Longrightarrow> fs p \<noteq> Some Dir
    \<Longrightarrow> write_text p data fs = (None, fs(p \<mapsto> File data))"
  by (auto simp: write_text_def wf_walk_parent split: option.splits node.splits)

lemma copy_ok:
  "wf_fs fs \<Longrightarrow> fs src = Some (File c) \<Longrightarrow> fs (parent dst) = Some Dir \<Longrightarrow> fs dst \<noteq> Some Dir
    \<Longrightarrow> src \<noteq> dst \<Longrightarrow> copy src dst fs = (None, fs(dst \<mapsto> File c))"
  by (simp add: copy_def copyfile_def samefile_def wf_is_dir wf_stat write_text_ok)

lemma grows_refl [simp]: "grows d fs fs"
  by (simp add: grows_def)

lemma grows_trans:
  assumes "grows d fs fs1" "grows d fs1 fs2"
  shows "grows d fs fs2"
  unfolding grows_def
proof
  fix q
  from assms(1) have a: "fs1 q = fs q
        \<or> (fs q = None \<and> fs1 q = Some Dir \<and> (under q d \<or> strictly_under d q))
        \<or> (fs q \<noteq> Some Dir \<and> (\<exists>c. fs1 q = Some (File c)) \<and> strictly_under d q)"
    unfolding grows_def by blast
  from assms(2) have b: "fs2 q = fs1 q
        \<or> (fs1 q = None \<and> fs2 q = Some Dir \<and> (under q d \<or> strictly_under d q))
        \<or> (fs1 q \<noteq> Some Dir \<and> (\<exists>c. fs2 q = Some (File c)) \<and> strictly_under d q)"
    unfolding grows_def by blast
  from a b show "fs2 q = fs q
        \<or> (fs q = None \<and> fs2 q = Some Dir \<and> (under q d \<or> strictly_under d q))
        \<or> (fs q \<noteq> Some Dir \<and> (\<exists>c. fs2 q = Some (File c)) \<and> strictly_under d q)"
    by auto
qed

lemma dirs_added_refl [simp]: "dirs_added p fs fs"
  by (simp add: dirs_added_def)

lemma dirs_added_grows:
  assumes "dirs_added p fs fs'" "under d p"
  shows "grows d fs fs'"
  unfolding grows_def
proof
  fix q
  from assms(1) have "fs' q = fs q \<or> (fs q = None \<and> fs' q = Some Dir \<and> under q p)"
    unfolding dirs_added_def by blast
  moreover have "under q d \<or> strictly_under d q" if "under q p"
    using under_comparable[OF that assms(2)] by (auto simp: strictly_under_iff)
  ultimately show "fs' q = fs q
        \<or> (fs q = None \<and> fs' q = Some Dir \<and> (under q d \<or> strictly_under d q))
        \<or> (fs q \<noteq> Some Dir \<and> (\<exists>c. fs' q = Some (File c)) \<and> strictly_under d q)"
    by blast
qed

lemma os_mkdir_Inr: "os_mkdir p fs = Inr fs' \<Longrightarrow> walk fs p = None \<and> fs p = None \<and> fs' = fs(p \<mapsto> Dir)"
  by (auto simp: os_mkdir_def split: option.splits)

lemma mkdir_plain:
  assumes "mkdir p False exist_ok fs = (r, fs')"
  shows "(r = None \<and> walk fs p = None \<and> fs p = None \<and> fs' = fs(p \<mapsto> Dir))
       \<or> (fs' = fs \<and> (r = None \<longrightarrow> exist_ok \<and> is_dir fs p))"
proof (cases "os_mkdir p fs")
  case (Inl e)
  then show ?thesis using assms by (subst (asm) mkdir.simps) (auto split: if_splits)
next
  case (Inr f)
  then show ?thesis using assms os_mkdir_Inr[OF Inr] by (subst (asm) mkdir.simps) auto
qed

lemma mkdir_dirs_added: "mkdir p parents exist_ok fs = (r, fs') \<Longrightarrow> dirs_added p fs fs'"
proof (induction "length (names p)" arbitrary: p parents exist_ok fs r fs' rule: less_induct)
  case less
  show ?case
  proof (cases "os_mkdir p fs")
    case (Inr f)
    then have "fs' = fs(p \<mapsto> Dir)" "fs p = None"
      using less.prems os_mkdir_Inr[OF Inr] by (subst (asm) mkdir.simps, simp)+
    then show ?thesis by (auto simp: dirs_added_def)
  next
    case (Inl e)
    show ?thesis
    proof (cases "is_FileNotFoundError e \<and> parents \<and> parent p \<noteq> p")
      case False
      then have "fs' = fs" using less.prems Inl
        by (subst (asm) mkdir.simps) (auto split: if_splits)
      then show ?thesis by simp
    next
      case True
      obtain r1 fs1 where m1: "mkdir (parent p) True True fs = (r1, fs1)" by fastforce
      have ne: "names p \<noteq> []" using True by (simp add: parent_eq_iff)
      then have "length (names (parent p)) < length (names p)" by (simp add: parent_def)
      then have d1: "dirs_added (parent p) fs fs1" using less.hyps m1 by blast
      then have d1': "dirs_added p fs fs1"
        unfolding dirs_added_def using under_trans[OF _ under_parent] by blast
      show ?thesis
      proof (cases r1)
        case (Some e1)
        then have "fs' = fs1" using less.prems Inl True m1
          by (subst (asm) mkdir.simps) auto
        then show ?thesis using d1' by simp
      next
        case None
        then have "mkdir p False exist_ok fs1 = (r, fs')" using less.prems Inl True m1
          by (subst (asm) mkdir.simps) auto
        from mkdir_plain[OF this] have "fs' = fs1 \<or> (fs1 p = None \<and> fs' = fs1(p \<mapsto> Dir))" by blast
        then show ?thesis
        proof
          assume "fs' = fs1" then show ?thesis using d1' by simp
        next
          assume a: "fs1 p = None \<and> fs' = fs1(p \<mapsto> Dir)"
          have "fs1 p = fs p \<or> (fs p = None \<and> fs1 p = Some Dir \<and> under p p)"
            using d1' unfolding dirs_added_def by blast
          then have "fs p = None" using a by auto
          then show ?thesis using a d1' by (auto simp: dirs_added_def)
        qed
      qed
    qed
  qed
qed

lemma touch_effect:
  "touch p fs = (r, fs') \<Longrightarrow> fs' = fs \<or> (r = None \<and> fs p = None \<and> fs' = fs(p \<mapsto> File []))"
  by (auto simp: touch_def exists_def stat_def split: if_splits option.splits)

lemma write_text_effect:
  "write_text p data fs = (r, fs') \<Longrightarrow>
     (fs' = fs \<and> r \<noteq> None) \<or> (r = None \<and> walk fs p = None \<and> fs p \<noteq> Some Dir \<and> fs' = fs(p \<mapsto> File data))"
  by (auto simp: write_text_def split: option.splits node.splits)

lemma copy_effect:
  assumes "copy src dst fs = (r, fs')"
  shows "(fs' = fs \<and> r \<noteq> None) \<or> (\<exists>q c. under dst q \<and> fs q \<noteq> Some Dir \<and> r = None \<and> fs' = fs(q \<mapsto> File c))"
proof -
  let ?dst = "if is_dir fs dst \<and> names src \<noteq> [] then Path (anchor dst) (names dst @ [last (names src)]) else dst"
  have u: "under dst ?dst" by (simp add: under_def)
  have "copyfile src ?dst fs = (r, fs')" using assms by (simp add: copy_def Let_def)
  then have "(fs' = fs \<and> r \<noteq> None) \<or> (\<exists>c. fs ?dst \<noteq> Some Dir \<and> r = None \<and> fs' = fs(?dst \<mapsto> File c))"
    unfolding copyfile_def
    by (auto split: if_splits sum.splits node.splits dest!: write_text_effect)
  then show ?thesis using u by blast
qed

lemma file_upd_grows:
  "strictly_under d q \<Longrightarrow> fs q \<noteq> Some Dir \<Longrightarrow> grows d fs (fs(q \<mapsto> File c))"
  by (auto simp: grows_def)

lemma touch_grows: "strictly_under d p \<Longrightarrow> touch p fs = (r, fs') \<Longrightarrow> grows d fs fs'"
  by (auto dest!: touch_effect intro: file_upd_grows)

lemma write_text_grows: "strictly_under d p \<Longrightarrow> write_text p data fs = (r, fs') \<Longrightarrow> grows d fs fs'"
  by (auto dest!: write_text_effect intro: file_upd_grows)

lemma strictly_under_trans1: "strictly_under d p \<Longrightarrow> under p q \<Longrightarrow> strictly_under d q"
  by (auto simp: strictly_under_def under_def)

lemma copy_grows: "strictly_under d dst \<Longrightarrow> copy src dst fs = (r, fs') \<Longrightarrow> grows d fs fs'"
  by (auto dest!: copy_effect intro!: file_upd_grows intro: strictly_under_trans1)

lemma strictly_under_parent: "strictly_under d p \<Longrightarrow> under d (parent p)"
  using under_parent_iff[of d p] by (auto simp: strictly_under_iff)

lemma seq_cases:
  assumes "seq f g fs = (r, fs2)"
  obtains fs1 where "f fs = (None, fs1)" "g fs1 = (r, fs2)"
        | e where "f fs = (Some e, fs2)" "r = Some e"
  using assms by (auto simp: seq_def split: prod.splits option.splits)

lemma seq_grows:
  assumes "seq f g fs = (r, fs2)"
    "\<And>r1 fs1. f fs = (r1, fs1) \<Longrightarrow> grows d fs fs1"
    "\<And>fs1 r2 fs2. g fs1 = (r2, fs2) \<Longrightarrow> grows d fs1 fs2"
  shows "grows d fs fs2"
  using assms(1)
proof (cases rule: seq_cases)
  case (1 fs1)
  then show ?thesis using assms(2,3) grows_trans by blast
next
  case (2 e)
  then show ?thesis using assms(2) by blast
qed

lemma joinpath_rel:
  "take 1 t \<noteq> ''/'' \<Longrightarrow> joinpath d t = Path (anchor d) (names d @ rel_parts t)"
  by (simp add: joinpath_def)

lemma joinpath_strictly_under:
  "take 1 t \<noteq> ''/'' \<Longrightarrow> rel_parts t \<noteq> [] \<Longrightarrow> strictly_under d (joinpath d t)"
  by (simp add: joinpath_rel strictly_under_def strict_prefix_def)

lemma copy_template_grows:
  assumes "strictly_under d (joinpath d (fst e))" "copy_template a d e fs = (r, fs')"
  shows "grows d fs fs'"
proof -
  obtain t k where e: "e = (t, k)" by (cases e)
  let ?t = "joinpath d t"
  have su: "strictly_under d ?t" using assms(1) e by simp
  have "seq (mkdir (parent ?t) True True)
           (\<lambda>fs. if k \<noteq> [] then
                    (let source = joinpath a k in
                     if exists fs source then copy source ?t fs else touch ?t fs)
                  else touch ?t fs) fs = (r, fs')"
    using assms(2) e by (simp add: copy_template_def Let_def)
  then show ?thesis
  proof (rule seq_grows)
    fix r1 fs1 assume "mkdir (parent ?t) True True fs = (r1, fs1)"
    then show "grows d fs fs1"
      using mkdir_dirs_added dirs_added_grows strictly_under_parent[OF su] by blast
  next
    fix fs1 r2 fs2
    assume "(if k \<noteq> [] then
                    (let source = joinpath a k in
                     if exists fs1 source then copy source ?t fs1 else touch ?t fs1)
                  else touch ?t fs1) = (r2, fs2)"
    then show "grows d fs1 fs2"
      using su by (auto simp: Let_def split: if_splits intro: copy_grows touch_grows)
  qed
qed

lemma copy_templates_grows:
  "\<forall>e\<in>set m. strictly_under d (joinpath d (fst e)) \<Longrightarrow> copy_templates a d m fs = (r, fs')
     \<Longrightarrow> grows d fs fs'"
proof (induction m arbitrary: fs r fs')
  case Nil
  then show ?case by simp
next
  case (Cons e m)
  from Cons.prems(2) have "seq (copy_template a d e) (copy_templates a d m) fs = (r, fs')" by simp
  then show ?case
    by (rule seq_grows) (use Cons in \<open>auto intro: copy_template_grows\<close>)
qed

lemma copy_root_file_grows:
  assumes "strictly_under d (joinpath d (fst e))" "copy_root_file a d e fs = (r, fs')"
  shows "grows d fs fs'"
  using assms by (cases e) (auto simp: copy_root_file_def Let_def split: if_splits intro: copy_grows)

lemma copy_root_files_grows:
  "\<forall>e\<in>set m. strictly_under d (joinpath d (fst e)) \<Longrightarrow> copy_root_files a d m fs = (r, fs')
     \<Longrightarrow> grows d fs fs'"
proof (induction m arbitrary: fs r fs')
  case Nil
  then show ?case by simp
next
  case (Cons e m)
  from Cons.prems(2) have "seq (copy_root_file a d e) (copy_root_files a d m) fs = (r, fs')" by simp
  then show ?case
    by (rule seq_grows) (use Cons in \<open>auto intro: copy_root_file_grows\<close>)
qed

lemma rel_parts_env [simp]: "rel_parts ''.env.example'' = [''.env.example'']"
  by (simp add: rel_parts_def)

lemma rel_parts_readme [simp]: "rel_parts ''README.md'' = [''README.md'']"
  by (simp add: rel_parts_def)

lemma joinpath_env: "joinpath d ''.env.example'' = Path (anchor d) (names d @ [''.env.example''])"
  by (simp add: joinpath_rel)

lemma joinpath_readme: "joinpath d ''README.md'' = Path (anchor d) (names d @ [''README.md''])"
  by (simp add: joinpath_rel)

lemma seq_None:
  assumes "seq f g fs = (None, fs2)"
  obtains fs1 where "f fs = (None, fs1)" "g fs1 = (None, fs2)"
  using assms by (auto simp: seq_def split: prod.splits option.splits)

lemma is_dir_iff: "is_dir fs p \<longleftrightarrow> walk fs p = None \<and> fs p = Some Dir"
  by (auto simp: is_dir_def stat_def split: option.splits node.splits sum.splits)

lemma exists_iff: "exists fs p \<longleftrightarrow> walk fs p = None \<and> fs p \<noteq> None"
  by (auto simp: exists_def stat_def split: option.splits sum.splits)

lemma grows_dir: "grows d fs fs' \<Longrightarrow> fs q = Some Dir \<Longrightarrow> fs' q = Some Dir"
  unfolding grows_def by (metis option.distinct(1))

lemma grows_is_dir: "grows d fs fs' \<Longrightarrow> is_dir fs p \<Longrightarrow> is_dir fs' p"
  by (auto simp: is_dir_iff walk_None_iff dest: grows_dir)


lemma first_bad_cong: "\<forall>a\<in>set ps. f a = g a \<Longrightarrow> first_bad f ps = first_bad g ps"
  by (induction ps) (auto split: option.splits node.splits)

lemma walk_cong: "\<forall>q. strictly_under q p \<longrightarrow> f q = g q \<Longrightarrow> walk f p = walk g p"
  unfolding walk_def by (rule first_bad_cong) (simp add: set_ancestors)

lemma walk_upd_self: "walk (fs(p \<mapsto> n)) p = walk fs p"
  by (rule walk_cong) (auto simp: strictly_under_iff)

lemma mkdir_success_is_dir:
  assumes "mkdir p parents False fs = (None, fs')"
  shows "is_dir fs' p"
proof (cases "os_mkdir p fs")
  case (Inr f)
  then have "fs' = fs(p \<mapsto> Dir)" "walk fs p = None"
    using assms os_mkdir_Inr[OF Inr] by (subst (asm) mkdir.simps, simp)+
  then show ?thesis by (simp add: is_dir_iff walk_upd_self)
next
  case (Inl e)
  obtain r1 fs1 where m1: "mkdir (parent p) True True fs = (r1, fs1)" by fastforce
  have "r1 = None \<and> mkdir p False False fs1 = (None, fs')"
    using assms Inl m1 by (subst (asm) mkdir.simps) (auto split: if_splits option.splits)
  then have "walk fs1 p = None \<and> fs' = fs1(p \<mapsto> Dir)"
    using mkdir_plain[of p False fs1 None fs'] by auto
  then show ?thesis by (simp add: is_dir_iff walk_upd_self)
qed

lemma create_project_with_cases:
  assumes "create_project_with n r a name out fs = (res, fs')"
  obtains (rejected) "exists fs (joinpath out name)" "res = Returned 1" "fs' = fs"
  | (ran) x where "\<not> exists fs (joinpath out name)"
      "seq (mkdir (joinpath out name) True False)
         (seq (copy_templates a (joinpath out name) n)
         (seq (copy_root_files a (joinpath out name) r)
         (seq (write_text (joinpath (joinpath out name) ''.env.example'') env_text)
              (write_text (joinpath (joinpath out name) ''README.md'') (readme_text name))))) fs = (x, fs')"
      "res = (case x of None \<Rightarrow> Returned 0 | Some e \<Rightarrow> Raised e)"
  using assms unfolding create_project_with_def Let_def
  by (auto split: if_splits prod.splits option.splits)

lemma create_project_with_grows:
  assumes t: "\<forall>e\<in>set n. strictly_under (joinpath out name) (joinpath (joinpath out name) (fst e))"
      and r: "\<forall>e\<in>set r. strictly_under (joinpath out name) (joinpath (joinpath out name) (fst e))"
      and c: "create_project_with n r a name out fs = (res, fs')"
  shows "grows (joinpath out name) fs fs'"
  using c
proof (cases rule: create_project_with_cases)
  case rejected
  then show ?thesis by simp
next
  case (ran x)
  let ?d = "joinpath out name"
  have e1: "strictly_under ?d (joinpath ?d ''.env.example'')"
    by (rule joinpath_strictly_under) simp_all
  have e2: "strictly_under ?d (joinpath ?d ''README.md'')"
    by (rule joinpath_strictly_under) simp_all
  show ?thesis
    apply (rule seq_grows[OF ran(2)])
     apply (erule dirs_added_grows[OF mkdir_dirs_added]; simp)
    apply (erule seq_grows)
     apply (erule copy_templates_grows[OF t])
    apply (erule seq_grows)
     apply (erule copy_root_files_grows[OF r])
    apply (erule seq_grows)
     apply (erule write_text_grows[OF e1])
    apply (erule write_text_grows[OF e2])
    done
qed

lemma create_project_with_success:
  assumes "create_project_with n r a name out fs = (Returned 0, fs')"
  obtains fs1 fs2 fs3 where
    "\<not> exists fs (joinpath out name)"
    "mkdir (joinpath out name) True False fs = (None, fs1)"
    "copy_templates a (joinpath out name) n fs1 = (None, fs2)"
    "copy_root_files a (joinpath out name) r fs2 = (None, fs3)"
    "walk fs3 (joinpath (joinpath out name) ''.env.example'') = None"
    "fs3 (joinpath (joinpath out name) ''.env.example'') \<noteq> Some Dir"
    "fs3 (joinpath (joinpath out name) ''README.md'') \<noteq> Some Dir"
    "fs' = fs3(joinpath (joinpath out name) ''.env.example'' \<mapsto> File env_text,
              joinpath (joinpath out name) ''README.md'' \<mapsto> File (readme_text name))"
  using assms
proof (cases rule: create_project_with_cases)
  case rejected
  then show ?thesis by simp
next
  case (ran x)
  then have x: "x = None" by (cases x) auto
  let ?d = "joinpath out name"
  from ran(2)[unfolded x] obtain fs1 where 1: "mkdir ?d True False fs = (None, fs1)"
    and s1: "seq (copy_templates a ?d n)
         (seq (copy_root_files a ?d r)
         (seq (write_text (joinpath ?d ''.env.example'') env_text)
              (write_text (joinpath ?d ''README.md'') (readme_text name)))) fs1 = (None, fs')"
    by (rule seq_None)
  from s1 obtain fs2 where 2: "copy_templates a ?d n fs1 = (None, fs2)"
    and s2: "seq (copy_root_files a ?d r)
         (seq (write_text (joinpath ?d ''.env.example'') env_text)
              (write_text (joinpath ?d ''README.md'') (readme_text name))) fs2 = (None, fs')"
    by (rule seq_None)
  from s2 obtain fs3 where 3: "copy_root_files a ?d r fs2 = (None, fs3)"
    and s3: "seq (write_text (joinpath ?d ''.env.example'') env_text)
              (write_text (joinpath ?d ''README.md'') (readme_text name)) fs3 = (None, fs')"
    by (rule seq_None)
  from s3 obtain fs4 where 4: "write_text (joinpath ?d ''.env.example'') env_text fs3 = (None, fs4)"
    and 5: "write_text (joinpath ?d ''README.md'') (readme_text name) fs4 = (None, fs')"
    by (rule seq_None)
  from write_text_effect[OF 4] have w4: "walk fs3 (joinpath ?d ''.env.example'') = None"
    "fs3 (joinpath ?d ''.env.example'') \<noteq> Some Dir"
    "fs4 = fs3(joinpath ?d ''.env.example'' \<mapsto> File env_text)" by auto
  from write_text_effect[OF 5] have w5: "fs4 (joinpath ?d ''README.md'') \<noteq> Some Dir"
    "fs' = fs4(joinpath ?d ''README.md'' \<mapsto> File (readme_text name))" by auto
  have "fs3 (joinpath ?d ''README.md'') \<noteq> Some Dir"
    using w5(1) w4(3) by (auto simp: joinpath_env joinpath_readme split: if_splits)
  then show ?thesis using that[OF ran(1) 1 2 3 w4(1,2)] w4(3) w5(2) by simp
qed

lemma manifest_targets:
  "\<forall>e\<in>set TEMPLATES. take 1 (fst e) \<noteq> ''/'' \<and> rel_parts (fst e) \<noteq> []"
  "\<forall>e\<in>set ROOT_FILES. take 1 (fst e) \<noteq> ''/'' \<and> rel_parts (fst e) \<noteq> []"
  by code_simp+

lemma templates_under: "e \<in> set TEMPLATES \<Longrightarrow> strictly_under d (joinpath d (fst e))"
proof -
  assume "e \<in> set TEMPLATES"
  with manifest_targets(1) have "take 1 (fst e) \<noteq> ''/'' \<and> rel_parts (fst e) \<noteq> []" by blast
  then show ?thesis by (blast intro: joinpath_strictly_under)
qed

lemma root_files_under: "e \<in> set ROOT_FILES \<Longrightarrow> strictly_under d (joinpath d (fst e))"
proof -
  assume "e \<in> set ROOT_FILES"
  with manifest_targets(2) have "take 1 (fst e) \<noteq> ''/'' \<and> rel_parts (fst e) \<noteq> []" by blast
  then show ?thesis by (blast intro: joinpath_strictly_under)
qed

lemma create_project_grows:
  assumes "create_project a name out fs = (res, fs')"
  shows "grows (joinpath out name) fs fs'"
  using assms unfolding create_project_def
  by (rule create_project_with_grows[rotated 2]) (blast intro: templates_under root_files_under)+

lemma readme_written:
  "create_project a name out fs = (Returned 0, fs') \<Longrightarrow>
     fs' (joinpath (joinpath out name) ''README.md'') = Some (File (readme_text name))"
  unfolding create_project_def by (erule create_project_with_success) simp

section \<open>The loops in closed form\<close>

lemma strictly_under_names: "strictly_under d t \<Longrightarrow> names t \<noteq> []"
  by (auto simp: strictly_under_def)

lemma src_unaffected:
  assumes wf: "wf_fs fs" and d: "fs d = Some Dir"
    and s: "fs s \<noteq> Some Dir" "\<not> under d s" and t: "strictly_under d t"
  shows "\<not> under s (parent t)" "s \<noteq> t"
proof -
  have dt: "under d (parent t)" by (rule strictly_under_parent[OF t])
  show "\<not> under s (parent t)"
  proof
    assume "under s (parent t)"
    from under_comparable[OF this dt] s(2) have sd: "under s d" by blast
    have "fs s = Some Dir"
    proof (cases "s = d")
      case True then show ?thesis using d by simp
    next
      case False
      show ?thesis by (rule wf_prefix_dir[OF wf _ sd False]) (simp add: d)
    qed
    with s(1) show False by simp
  qed
  show "s \<noteq> t" using s(2) t by (auto simp: strictly_under_iff)
qed

lemma copy_template_ok:
  assumes wf: "wf_fs fs" and d: "fs d = Some Dir"
    and t: "strictly_under d (joinpath d (fst e))" "fs (joinpath d (fst e)) = None"
    and nf: "\<forall>q. under q (parent (joinpath d (fst e))) \<longrightarrow> (\<forall>c. fs q \<noteq> Some (File c))"
    and s: "snd e \<noteq> [] \<longrightarrow> fs (joinpath a (snd e)) \<noteq> Some Dir \<and> \<not> under d (joinpath a (snd e))"
  shows "copy_template a d e fs
           = (None, (mk_dirs (parent (joinpath d (fst e))) fs)(joinpath d (fst e) \<mapsto> File (content fs a e)))"
    and "wf_fs ((mk_dirs (parent (joinpath d (fst e))) fs)(joinpath d (fst e) \<mapsto> File (content fs a e)))"
proof -
  let ?t = "joinpath d (fst e)"
  let ?s = "joinpath a (snd e)"
  let ?m = "mk_dirs (parent ?t) fs"
  have ne: "names ?t \<noteq> []" by (rule strictly_under_names[OF t(1)])
  have mk: "mkdir (parent ?t) True True fs = (None, ?m)"
    by (rule mkdir_ok[OF wf nf]) simp
  have wfm: "wf_fs ?m" by (rule mk_dirs_wf[OF wf nf])
  have mt: "?m ?t = None" using not_under_parent[OF ne] t(2) by (simp add: mk_dirs_def)
  have mp: "?m (parent ?t) = Some Dir" by (simp add: mk_dirs_def)
  have tch: "touch ?t ?m = (None, ?m(?t \<mapsto> File []))" by (rule touch_new[OF wfm mt mp])
  have body: "(if snd e \<noteq> [] then
                 (let source = ?s in if exists ?m source then copy source ?t ?m else touch ?t ?m)
               else touch ?t ?m) = (None, ?m(?t \<mapsto> File (content fs a e)))"
  proof (cases "snd e = []")
    case True
    then show ?thesis using tch by (simp add: content_def)
  next
    case False
    with s have s': "fs ?s \<noteq> Some Dir" "\<not> under d ?s" by auto
    from src_unaffected[OF wf d s' t(1)] have u: "\<not> under ?s (parent ?t)" "?s \<noteq> ?t" .
    then have ms: "?m ?s = fs ?s" by (simp add: mk_dirs_def)
    show ?thesis
    proof (cases "fs ?s")
      case None
      then have "\<not> exists ?m ?s" using ms wfm by (simp add: wf_exists)
      then show ?thesis using False None tch by (simp add: content_def)
    next
      case (Some n)
      then obtain c where c: "fs ?s = Some (File c)" using s'(1) by (cases n) auto
      then have ex: "exists ?m ?s" using ms wfm by (simp add: wf_exists)
      have "copy ?s ?t ?m = (None, ?m(?t \<mapsto> File c))"
        by (rule copy_ok[OF wfm _ mp _ u(2)]) (simp_all add: ms c mt)
      then show ?thesis using False c ex by (simp add: content_def)
    qed
  qed
  show "copy_template a d e fs = (None, ?m(?t \<mapsto> File (content fs a e)))"
    unfolding copy_template_def using mk body
    by (simp add: case_prod_beta seq_def Let_def)
  show "wf_fs (?m(?t \<mapsto> File (content fs a e)))"
    by (rule wf_upd_file[OF wfm mp]) (simp add: mt)
qed

lemma nested_result_Nil [simp]: "nested_result a d [] fs = fs"
  by (rule ext) (simp add: nested_result_def)

lemma copy_templates_ok:
  "nested_ready a d m fs \<Longrightarrow>
     copy_templates a d m fs = (None, nested_result a d m fs) \<and> wf_fs (nested_result a d m fs)"
proof (induction m arbitrary: fs)
  case Nil
  then show ?case by (simp add: nested_ready_def)
next
  case (Cons e m)
  let ?T = "\<lambda>e. joinpath d (fst e)"
  let ?S = "\<lambda>e. joinpath a (snd e)"
  let ?t = "?T e"
  let ?fs1 = "(mk_dirs (parent ?t) fs)(?t \<mapsto> File (content fs a e))"
  from Cons.prems have wf: "wf_fs fs" and d: "fs d = Some Dir"
    and dist: "?t \<notin> ?T ` set m" "distinct (map ?T m)"
    and te: "strictly_under d ?t" "fs ?t = None"
      "\<forall>q. under q (parent ?t) \<longrightarrow> (\<forall>c. fs q \<noteq> Some (File c))"
      "snd e \<noteq> [] \<longrightarrow> fs (?S e) \<noteq> Some Dir \<and> \<not> under d (?S e)"
    and rest: "\<forall>e'\<in>set m. strictly_under d (?T e') \<and> fs (?T e') = None
           \<and> (\<forall>q. under q (parent (?T e')) \<longrightarrow> (\<forall>c. fs q \<noteq> Some (File c)))
           \<and> (snd e' \<noteq> [] \<longrightarrow> fs (?S e') \<noteq> Some Dir \<and> \<not> under d (?S e'))"
    and pf: "\<forall>e'\<in>set m. \<not> strictly_under ?t (?T e') \<and> \<not> strictly_under (?T e') ?t"
      "\<forall>e1\<in>set m. \<forall>e2\<in>set m. \<not> strictly_under (?T e1) (?T e2)"
    by (auto simp: nested_ready_def)
  have step: "copy_template a d e fs = (None, ?fs1)" and wf1: "wf_fs ?fs1"
    by (rule copy_template_ok[OF wf d te])+
  have fs1: "\<And>q. ?fs1 q = (if q = ?t then Some (File (content fs a e))
                            else if under q (parent ?t) then Some Dir else fs q)"
    by (simp add: mk_dirs_def)
  have ne: "?T e' \<noteq> ?t" if "e' \<in> set m" for e'
  proof
    assume "?T e' = ?t"
    then have "?t \<in> ?T ` set m" using that by (metis (no_types, lifting) image_eqI)
    then show False using dist(1) by simp
  qed
  have C: "\<not> under (?T e') (parent ?t)" if "e' \<in> set m" for e'
  proof
    assume "under (?T e') (parent ?t)"
    then have "under (?T e') ?t" by (rule under_trans[OF _ under_parent])
    then have "strictly_under (?T e') ?t" using ne[OF that] by (simp add: strictly_under_iff)
    then show False using pf(1) that by blast
  qed
  have D: "\<not> under ?t (parent (?T e'))" if "e' \<in> set m" for e'
  proof
    assume "under ?t (parent (?T e'))"
    then have "under ?t (?T e')" by (rule under_trans[OF _ under_parent])
    then have "strictly_under ?t (?T e')" using ne[OF that] by (auto simp: strictly_under_iff)
    then show False using pf(1) that by blast
  qed
  have src: "?fs1 (?S e') = fs (?S e')" if "e' \<in> set m" "snd e' \<noteq> []" for e'
  proof -
    from rest that have s: "fs (?S e') \<noteq> Some Dir" "\<not> under d (?S e')" by auto
    from src_unaffected[OF wf d s te(1)] show ?thesis by (simp add: fs1 mk_dirs_def)
  qed
  have cont: "content ?fs1 a e' = content fs a e'" if "e' \<in> set m" for e'
    using src[OF that] by (simp add: content_def del: fun_upd_apply)
  have d1: "?fs1 d = Some Dir"
    using te(1) strictly_under_parent[OF te(1)] by (simp add: fs1 mk_dirs_def strictly_under_iff)
  have ready1: "nested_ready a d m ?fs1"
    unfolding nested_ready_def
  proof (intro conjI ballI)
    show "wf_fs ?fs1" by (rule wf1)
    show "?fs1 d = Some Dir" by (rule d1)
    show "distinct (map ?T m)" by (rule dist(2))
  next
    fix e' assume e': "e' \<in> set m"
    show "strictly_under d (?T e')" using rest e' by blast
    show "?fs1 (?T e') = None" using rest e' ne[OF e'] C[OF e'] by (simp add: fs1 mk_dirs_def)
    show "\<forall>q. under q (parent (?T e')) \<longrightarrow> (\<forall>c. ?fs1 q \<noteq> Some (File c))"
    proof (intro allI impI)
      fix q c assume q: "under q (parent (?T e'))"
      have "q \<noteq> ?t" using D[OF e'] q by auto
      moreover have "fs q \<noteq> Some (File c)" using rest e' q by blast
      ultimately show "?fs1 q \<noteq> Some (File c)" by (simp add: fs1 mk_dirs_def)
    qed
    show "snd e' \<noteq> [] \<longrightarrow> ?fs1 (?S e') \<noteq> Some Dir \<and> \<not> under d (?S e')"
    proof
      assume n: "snd e' \<noteq> []"
      then show "?fs1 (?S e') \<noteq> Some Dir \<and> \<not> under d (?S e')"
        using src[OF e' n] rest e' by (simp del: fun_upd_apply)
    qed
  next
    fix e1 e2 assume "e1 \<in> set m" "e2 \<in> set m"
    then show "\<not> strictly_under (?T e1) (?T e2)" using pf(2) by blast
  qed
  from Cons.IH[OF ready1]
  have ih: "copy_templates a d m ?fs1 = (None, nested_result a d m ?fs1)"
    and wfr: "wf_fs (nested_result a d m ?fs1)" by blast+
  have lists: "map (\<lambda>e. (?T e, content ?fs1 a e)) m = map (\<lambda>e. (?T e, content fs a e)) m"
    by (rule map_cong[OF refl]) (simp add: cont del: fun_upd_apply)
  let ?L = "map (\<lambda>e. (?T e, content fs a e)) m"
  have tnone: "map_of ?L ?t = None"
    using dist(1) by (simp add: map_of_eq_None_iff image_image)
  have eq: "nested_result a d m ?fs1 = nested_result a d (e # m) fs"
  proof (rule ext)
    fix q
    show "nested_result a d m ?fs1 q = nested_result a d (e # m) fs q"
    proof (cases "q = ?t")
      case True
      have "\<not> (\<exists>e'\<in>set m. under ?t (parent (?T e')))" using D by blast
      then have "nested_result a d m ?fs1 ?t = Some (File (content fs a e))"
        unfolding nested_result_def lists using tnone by (simp add: mk_dirs_def)
      moreover have "nested_result a d (e # m) fs ?t = Some (File (content fs a e))"
        unfolding nested_result_def by simp
      ultimately show ?thesis using True by simp
    next
      case False
      have fq: "?fs1 q = (if under q (parent ?t) then Some Dir else fs q)"
        using False by (simp add: mk_dirs_def)
      have l: "nested_result a d m ?fs1 q =
          (case map_of ?L q of Some c \<Rightarrow> Some (File c)
           | None \<Rightarrow> if (\<exists>e'\<in>set m. under q (parent (?T e'))) then Some Dir else ?fs1 q)"
        unfolding nested_result_def lists by (rule refl)
      have r: "nested_result a d (e # m) fs q =
          (case map_of ?L q of Some c \<Rightarrow> Some (File c)
           | None \<Rightarrow> if under q (parent ?t) \<or> (\<exists>e'\<in>set m. under q (parent (?T e'))) then Some Dir
                     else fs q)"
        unfolding nested_result_def using False by (auto split: option.splits)
      show ?thesis
      proof (cases "map_of ?L q")
        case None
        then show ?thesis unfolding l r fq by simp
      next
        case (Some c)
        then show ?thesis unfolding l r by simp
      qed
    qed
  qed
  have "copy_templates a d (e # m) fs = (None, nested_result a d m ?fs1)"
    using step ih by (simp add: seq_def del: fun_upd_apply)
  then show ?case using wfr eq by simp
qed

lemma root_step_apply:
  "root_step a d e fs q =
     (if q = joinpath d (fst e)
      then (case fs (joinpath a (snd e)) of Some (File c) \<Rightarrow> Some (File c) | _ \<Rightarrow> fs q)
      else fs q)"
  by (simp add: root_step_def split: option.splits node.splits)

lemma root_result_Nil [simp]: "root_result a d [] fs = fs"
  by (rule ext) (simp add: root_result_def)

lemma copy_root_file_ok:
  assumes wf: "wf_fs fs"
    and t: "strictly_under d (joinpath d (fst e))" "fs (parent (joinpath d (fst e))) = Some Dir"
      "fs (joinpath d (fst e)) \<noteq> Some Dir"
    and s: "fs (joinpath a (snd e)) \<noteq> Some Dir" "\<not> under d (joinpath a (snd e))"
  shows "copy_root_file a d e fs = (None, root_step a d e fs)" and "wf_fs (root_step a d e fs)"
proof -
  let ?t = "joinpath d (fst e)"
  let ?s = "joinpath a (snd e)"
  have st: "?s \<noteq> ?t" using s(2) t(1) by (auto simp: strictly_under_iff)
  show "copy_root_file a d e fs = (None, root_step a d e fs)"
  proof (cases "fs ?s")
    case None
    then have "\<not> exists fs ?s" using wf by (simp add: wf_exists)
    then show ?thesis using None by (simp add: copy_root_file_def root_step_def case_prod_beta)
  next
    case (Some n)
    then obtain c where c: "fs ?s = Some (File c)" using s(1) by (cases n) auto
    then have ex: "exists fs ?s" using wf by (simp add: wf_exists)
    have "copy ?s ?t fs = (None, fs(?t \<mapsto> File c))"
      by (rule copy_ok[OF wf c t(2,3) st])
    then show ?thesis using ex c by (simp add: copy_root_file_def root_step_def case_prod_beta)
  qed
  show "wf_fs (root_step a d e fs)"
  proof (cases "fs ?s")
    case None
    then show ?thesis using wf by (simp add: root_step_def)
  next
    case (Some n)
    then obtain c where c: "fs ?s = Some (File c)" using s(1) by (cases n) auto
    have "wf_fs (fs(?t \<mapsto> File c))" by (rule wf_upd_file[OF wf t(2,3)])
    then show ?thesis using c by (simp add: root_step_def)
  qed
qed

lemma copy_root_files_ok:
  "root_ready a d m fs \<Longrightarrow>
     copy_root_files a d m fs = (None, root_result a d m fs) \<and> wf_fs (root_result a d m fs)"
proof (induction m arbitrary: fs)
  case Nil
  then show ?case by (simp add: root_ready_def)
next
  case (Cons e m)
  let ?T = "\<lambda>e. joinpath d (fst e)"
  let ?S = "\<lambda>e. joinpath a (snd e)"
  let ?t = "?T e"
  let ?fs1 = "root_step a d e fs"
  from Cons.prems have wf: "wf_fs fs"
    and dist: "?t \<notin> ?T ` set m" "distinct (map ?T m)"
    and te: "strictly_under d ?t" "fs (parent ?t) = Some Dir" "fs ?t \<noteq> Some Dir"
      "fs (?S e) \<noteq> Some Dir" "\<not> under d (?S e)"
    and rest: "\<forall>e'\<in>set m. strictly_under d (?T e') \<and> fs (parent (?T e')) = Some Dir
           \<and> fs (?T e') \<noteq> Some Dir \<and> fs (?S e') \<noteq> Some Dir \<and> \<not> under d (?S e')"
    and np: "\<forall>e'\<in>set m. parent (?T e') \<noteq> ?t"
      "\<forall>e1\<in>set m. \<forall>e2\<in>set m. parent (?T e2) \<noteq> ?T e1"
    by (auto simp: root_ready_def)
  have step: "copy_root_file a d e fs = (None, ?fs1)" and wf1: "wf_fs ?fs1"
    by (rule copy_root_file_ok[OF wf te])+
  have ne: "?T e' \<noteq> ?t" if "e' \<in> set m" for e'
  proof
    assume "?T e' = ?t"
    then have "?t \<in> ?T ` set m" using that by (metis (no_types, lifting) image_eqI)
    then show False using dist(1) by simp
  qed
  have src: "?fs1 (?S e') = fs (?S e')" if "e' \<in> set m" for e'
  proof -
    have "\<not> under d (?S e')" using rest that by blast
    then have "?S e' \<noteq> ?t" using te(1) by (auto simp: strictly_under_iff)
    then show ?thesis by (simp add: root_step_apply)
  qed
  have ready1: "root_ready a d m ?fs1"
    unfolding root_ready_def
  proof (intro conjI ballI)
    show "wf_fs ?fs1" by (rule wf1)
    show "distinct (map ?T m)" by (rule dist(2))
  next
    fix e' assume e': "e' \<in> set m"
    show "strictly_under d (?T e')" using rest e' by blast
    show "?fs1 (parent (?T e')) = Some Dir" using rest e' np(1) by (simp add: root_step_apply)
    show "?fs1 (?T e') \<noteq> Some Dir" using rest e' ne[OF e'] by (simp add: root_step_apply)
    show "?fs1 (?S e') \<noteq> Some Dir" using rest e' src[OF e'] by simp
    show "\<not> under d (?S e')" using rest e' by blast
  next
    fix e1 e2 assume "e1 \<in> set m" "e2 \<in> set m"
    then show "parent (?T e2) \<noteq> ?T e1" using np(2) by blast
  qed
  from Cons.IH[OF ready1]
  have ih: "copy_root_files a d m ?fs1 = (None, root_result a d m ?fs1)"
    and wfr: "wf_fs (root_result a d m ?fs1)" by blast+
  have lists: "map (\<lambda>e. (?T e, ?fs1 (?S e))) m = map (\<lambda>e. (?T e, fs (?S e))) m"
    by (rule map_cong[OF refl]) (simp add: src)
  let ?L = "map (\<lambda>e. (?T e, fs (?S e))) m"
  have tnone: "map_of ?L ?t = None"
    using dist(1) by (simp add: map_of_eq_None_iff image_image)
  have eq: "root_result a d m ?fs1 = root_result a d (e # m) fs"
  proof (rule ext)
    fix q
    have l: "root_result a d m ?fs1 q =
          (case map_of ?L q of Some (Some (File c)) \<Rightarrow> Some (File c) | _ \<Rightarrow> ?fs1 q)"
      unfolding root_result_def lists by (rule refl)
    show "root_result a d m ?fs1 q = root_result a d (e # m) fs q"
    proof (cases "q = ?t")
      case True
      have "root_result a d (e # m) fs ?t =
          (case fs (?S e) of Some (File c) \<Rightarrow> Some (File c) | _ \<Rightarrow> fs ?t)"
        unfolding root_result_def by simp
      then show ?thesis unfolding l using True tnone by (simp add: root_step_apply)
    next
      case False
      have "root_result a d (e # m) fs q =
          (case map_of ?L q of Some (Some (File c)) \<Rightarrow> Some (File c) | _ \<Rightarrow> fs q)"
        unfolding root_result_def using False by simp
      moreover have "?fs1 q = fs q" using False by (simp add: root_step_apply)
      ultimately show ?thesis unfolding l by (simp split: option.splits node.splits)
    qed
  qed
  have "copy_root_files a d (e # m) fs = (None, root_result a d m ?fs1)"
    using step ih by (simp add: seq_def)
  then show ?case using wfr eq by simp
qed

lemma joinpath_eq_iff:
  "take 1 t \<noteq> ''/'' \<Longrightarrow> take 1 t' \<noteq> ''/'' \<Longrightarrow>
     joinpath d t = joinpath d t' \<longleftrightarrow> rel_parts t = rel_parts t'"
  by (simp add: joinpath_rel)

lemma joinpath_strictly_under_iff:
  "take 1 t \<noteq> ''/'' \<Longrightarrow> take 1 t' \<noteq> ''/'' \<Longrightarrow>
     strictly_under (joinpath d t) (joinpath d t') \<longleftrightarrow> strict_prefix (rel_parts t) (rel_parts t')"
  by (simp add: joinpath_rel strictly_under_def strict_prefix_def)

lemma under_parent_strict:
  assumes "under q (parent p)" "names p \<noteq> []"
  shows "strictly_under q p"
proof -
  have "under q p" by (rule under_trans[OF assms(1) under_parent])
  moreover have "q \<noteq> p" using assms not_under_parent by blast
  ultimately show ?thesis by (simp add: strictly_under_iff)
qed

lemma distinct_targets:
  assumes "\<forall>e\<in>set m. take 1 (fst e) \<noteq> ''/''" "distinct (map (\<lambda>e. rel_parts (fst e)) m)"
  shows "distinct (map (\<lambda>e. joinpath d (fst e)) m)"
proof -
  from assms(2) have dm: "distinct m" and inj: "inj_on (\<lambda>e. rel_parts (fst e)) (set m)"
    by (simp_all add: distinct_map)
  have "inj_on (\<lambda>e. joinpath d (fst e)) (set m)"
  proof (rule inj_onI)
    fix x y assume x: "x \<in> set m" and y: "y \<in> set m"
      and eq: "joinpath d (fst x) = joinpath d (fst y)"
    have "rel_parts (fst x) = rel_parts (fst y)"
      using eq joinpath_eq_iff[of "fst x" "fst y" d] assms(1) x y by blast
    then show "x = y" using inj x y by (simp add: inj_on_def)
  qed
  then show ?thesis using dm by (simp add: distinct_map)
qed

lemma mk_dirs_fresh:
  assumes wf: "wf_fs fs" and d: "fs d = None" and q: "strictly_under d q"
  shows "mk_dirs d fs q = None"
proof -
  have "fs q = None"
  proof (rule ccontr)
    assume "fs q \<noteq> None"
    then have "fs d = Some Dir"
      using wf_prefix_dir[OF wf _ _ _, of q d] q by (auto simp: strictly_under_iff)
    then show False using d by simp
  qed
  moreover have "\<not> under q d" using q under_antisym by (auto simp: strictly_under_iff)
  ultimately show ?thesis by (simp add: mk_dirs_def)
qed

lemma mk_dirs_no_file:
  assumes wf: "wf_fs fs" and d: "fs d = None"
  shows "under q p \<Longrightarrow> under d p \<Longrightarrow> mk_dirs d fs q \<noteq> Some (File c)"
proof -
  assume "under q p" "under d p"
  then have "under q d \<or> under d q" by (rule under_comparable)
  then show ?thesis
  proof
    assume "under q d" then show ?thesis by (simp add: mk_dirs_def)
  next
    assume u: "under d q"
    show ?thesis
    proof (cases "q = d")
      case True then show ?thesis by (simp add: mk_dirs_def)
    next
      case False
      then have "strictly_under d q" using u by (simp add: strictly_under_iff)
      then show ?thesis using mk_dirs_fresh[OF wf d] by simp
    qed
  qed
qed

lemma nested_result_other:
  assumes "q \<notin> (\<lambda>e. joinpath d (fst e)) ` set n"
    "\<not> (\<exists>e\<in>set n. under q (parent (joinpath d (fst e))))"
  shows "nested_result a d n fs q = fs q"
proof -
  have "map_of (map (\<lambda>e. (joinpath d (fst e), content fs a e)) n) q = None"
    using assms(1) by (simp add: map_of_eq_None_iff image_image)
  then show ?thesis using assms(2) unfolding nested_result_def by simp
qed

lemma nested_result_target:
  assumes "distinct (map (\<lambda>e. joinpath d (fst e)) n)" "e \<in> set n"
  shows "nested_result a d n fs (joinpath d (fst e)) = Some (File (content fs a e))"
proof -
  have "(joinpath d (fst e), content fs a e) \<in> set (map (\<lambda>e. (joinpath d (fst e), content fs a e)) n)"
    using assms(2) by auto
  moreover have "distinct (map fst (map (\<lambda>e. (joinpath d (fst e), content fs a e)) n))"
    using assms(1) by (simp add: comp_def)
  ultimately have "map_of (map (\<lambda>e. (joinpath d (fst e), content fs a e)) n) (joinpath d (fst e))
      = Some (content fs a e)"
    by (rule map_of_is_SomeI[rotated])
  then show ?thesis unfolding nested_result_def by simp
qed

lemma root_result_other:
  assumes "q \<notin> (\<lambda>e. joinpath d (fst e)) ` set r"
  shows "root_result a d r fs q = fs q"
proof -
  have "map_of (map (\<lambda>e. (joinpath d (fst e), fs (joinpath a (snd e)))) r) q = None"
    using assms(1) by (simp add: map_of_eq_None_iff image_image)
  then show ?thesis unfolding root_result_def by simp
qed

lemma root_result_target:
  assumes "distinct (map (\<lambda>e. joinpath d (fst e)) r)" "e \<in> set r"
  shows "root_result a d r fs (joinpath d (fst e))
       = (case fs (joinpath a (snd e)) of Some (File c) \<Rightarrow> Some (File c) | _ \<Rightarrow> fs (joinpath d (fst e)))"
proof -
  have "(joinpath d (fst e), fs (joinpath a (snd e)))
      \<in> set (map (\<lambda>e. (joinpath d (fst e), fs (joinpath a (snd e)))) r)"
    using assms(2) by auto
  moreover have "distinct (map fst (map (\<lambda>e. (joinpath d (fst e), fs (joinpath a (snd e)))) r))"
    using assms(1) by (simp add: comp_def)
  ultimately have "map_of (map (\<lambda>e. (joinpath d (fst e), fs (joinpath a (snd e)))) r) (joinpath d (fst e))
      = Some (fs (joinpath a (snd e)))"
    by (rule map_of_is_SomeI[rotated])
  then show ?thesis unfolding root_result_def by simp
qed

lemma root_target_parent:
  assumes "take 1 t \<noteq> ''/''" "length (rel_parts t) = 1"
  shows "parent (joinpath d t) = d"
proof -
  obtain x where "rel_parts t = [x]" using assms(2) by (cases "rel_parts t") auto
  then show ?thesis using assms(1) by (cases d) (simp add: joinpath_rel parent_def)
qed

lemma nested_result_dir:
  assumes "fs d = Some Dir" "\<forall>e\<in>set n. strictly_under d (joinpath d (fst e))"
  shows "nested_result a d n fs d = Some Dir"
proof -
  have "d \<notin> (\<lambda>e. joinpath d (fst e)) ` set n"
    using assms(2) by (auto simp: strictly_under_iff)
  then have "map_of (map (\<lambda>e. (joinpath d (fst e), content fs a e)) n) d = None"
    by (simp add: map_of_eq_None_iff image_image)
  then show ?thesis using assms(1) unfolding nested_result_def by simp
qed

lemma loops_ok:
  assumes wf: "wf_fs fs" and d: "fs d = None"
    and nf: "\<forall>q. under q d \<longrightarrow> (\<forall>c. fs q \<noteq> Some (File c))"
    and lay: "layout_ok n r" and ast: "assets_ok a d n r fs"
  shows "mkdir d True False fs = (None, mk_dirs d fs)"
    and "copy_templates a d n (mk_dirs d fs) = (None, nested_result a d n (mk_dirs d fs))"
    and "copy_root_files a d r (nested_result a d n (mk_dirs d fs))
           = (None, root_result a d r (nested_result a d n (mk_dirs d fs)))"
    and "wf_fs (root_result a d r (nested_result a d n (mk_dirs d fs)))"
    and "nested_ready a d n (mk_dirs d fs)"
    and "root_ready a d r (nested_result a d n (mk_dirs d fs))"
    and "\<And>s. asset_ok fs d s \<Longrightarrow> nested_result a d n (mk_dirs d fs) s = fs s"
    and "\<And>s. asset_ok fs d s \<Longrightarrow> mk_dirs d fs s = fs s"
    and "\<And>t. take 1 t \<noteq> ''/'' \<Longrightarrow> rel_parts t \<noteq> [] \<Longrightarrow>
           \<forall>e\<in>set n. \<not> prefix (rel_parts t) (rel_parts (fst e)) \<Longrightarrow>
           nested_result a d n (mk_dirs d fs) (joinpath d t) = None"
proof -
  let ?T = "\<lambda>e. joinpath d (fst e)"
  let ?S = "\<lambda>e. joinpath a (snd e)"
  let ?f1 = "mk_dirs d fs"
  let ?f2 = "nested_result a d n ?f1"
  from lay have reln: "\<forall>e\<in>set n. take 1 (fst e) \<noteq> ''/''" "\<forall>e\<in>set n. rel_parts (fst e) \<noteq> []"
    and relr: "\<forall>e\<in>set r. take 1 (fst e) \<noteq> ''/''" "\<forall>e\<in>set r. length (rel_parts (fst e)) = 1"
    and dn: "distinct (map (\<lambda>e. rel_parts (fst e)) n)"
    and dr: "distinct (map (\<lambda>e. rel_parts (fst e)) r)"
    and pfn: "\<forall>e\<in>set n. \<forall>e'\<in>set n. \<not> strict_prefix (rel_parts (fst e)) (rel_parts (fst e'))"
    and pfr: "\<forall>e\<in>set r. \<forall>e'\<in>set n. \<not> strict_prefix (rel_parts (fst e)) (rel_parts (fst e'))"
    by (simp_all add: layout_ok_def)
  show mk: "mkdir d True False fs = (None, ?f1)"
    by (rule mkdir_ok[OF wf nf]) (simp add: d)
  have wf1: "wf_fs ?f1" by (rule mk_dirs_wf[OF wf nf])
  have f1d: "?f1 d = Some Dir" by (simp add: mk_dirs_def)
  have sun: "strictly_under d (?T e)" if "e \<in> set n" for e
    using reln that by (blast intro: joinpath_strictly_under)
  have sur: "strictly_under d (?T e)" if "e \<in> set r" for e
  proof -
    have "rel_parts (fst e) \<noteq> []" using relr(2) that by fastforce
    then show ?thesis using relr(1) that by (blast intro: joinpath_strictly_under)
  qed
  show asset1: "?f1 s = fs s" if "asset_ok fs d s" for s
    using that by (simp add: asset_ok_def mk_dirs_def)
  have distn: "distinct (map ?T n)" by (rule distinct_targets[OF reln(1) dn])
  have distr: "distinct (map ?T r)" by (rule distinct_targets[OF relr(1) dr])
  show ready1: "nested_ready a d n ?f1"
    unfolding nested_ready_def
  proof (intro conjI ballI)
    show "wf_fs ?f1" by (rule wf1)
    show "?f1 d = Some Dir" by (rule f1d)
    show "distinct (map ?T n)" by (rule distn)
  next
    fix e assume e: "e \<in> set n"
    show "strictly_under d (?T e)" by (rule sun[OF e])
    show "?f1 (?T e) = None" by (rule mk_dirs_fresh[OF wf d sun[OF e]])
    show "\<forall>q. under q (parent (?T e)) \<longrightarrow> (\<forall>c. ?f1 q \<noteq> Some (File c))"
      using mk_dirs_no_file[OF wf d _ strictly_under_parent[OF sun[OF e]]] by blast
    show "snd e \<noteq> [] \<longrightarrow> ?f1 (?S e) \<noteq> Some Dir \<and> \<not> under d (?S e)"
    proof
      assume "snd e \<noteq> []"
      then have ok: "asset_ok fs d (?S e)" using ast e by (simp add: assets_ok_def)
      then show "?f1 (?S e) \<noteq> Some Dir \<and> \<not> under d (?S e)"
        using asset1[OF ok] by (simp add: asset_ok_def)
    qed
  next
    fix e e' assume "e \<in> set n" "e' \<in> set n"
    then show "\<not> strictly_under (?T e) (?T e')"
      using pfn reln(1) by (simp add: joinpath_strictly_under_iff)
  qed
  from copy_templates_ok[OF ready1]
  have ct: "copy_templates a d n ?f1 = (None, ?f2)" and wf2: "wf_fs ?f2" by blast+
  show "copy_templates a d n ?f1 = (None, ?f2)" by (rule ct)
  have f2d: "?f2 d = Some Dir"
    using f1d by (rule nested_result_dir) (use sun in blast)
  show asset2: "?f2 s = fs s" if ok: "asset_ok fs d s" for s
  proof -
    have nd: "?f1 s \<noteq> Some Dir" "\<not> under d s" using ok asset1[OF ok] by (simp_all add: asset_ok_def)
    have "s \<notin> ?T ` set n"
    proof
      assume "s \<in> ?T ` set n"
      then obtain e where "e \<in> set n" "s = ?T e" by blast
      then have "under d s" using sun[of e] by (simp add: strictly_under_iff)
      then show False using nd(2) by simp
    qed
    moreover have "\<not> (\<exists>e\<in>set n. under s (parent (?T e)))"
      using src_unaffected(1)[OF wf1 f1d nd sun] by blast
    ultimately have "?f2 s = ?f1 s" by (rule nested_result_other)
    then show ?thesis using asset1[OF ok] by simp
  qed
  show ready2: "root_ready a d r ?f2"
    unfolding root_ready_def
  proof (intro conjI ballI)
    show "wf_fs ?f2" by (rule wf2)
    show "distinct (map ?T r)" by (rule distr)
  next
    fix e assume e: "e \<in> set r"
    have par: "parent (?T e) = d" using relr e by (blast intro: root_target_parent)
    show "strictly_under d (?T e)" by (rule sur[OF e])
    show "?f2 (parent (?T e)) = Some Dir" using f2d par by simp
    show "?f2 (?T e) \<noteq> Some Dir"
    proof (cases "?T e \<in> ?T ` set n")
      case True
      then obtain e' where e': "e' \<in> set n" "?T e = ?T e'" by blast
      show ?thesis using nested_result_target[OF distn e'(1), of a ?f1] e'(2) by simp
    next
      case False
      have "\<not> (\<exists>e'\<in>set n. under (?T e) (parent (?T e')))"
      proof
        assume "\<exists>e'\<in>set n. under (?T e) (parent (?T e'))"
        then obtain e' where e': "e' \<in> set n" "under (?T e) (parent (?T e'))" by blast
        have "strictly_under (?T e) (?T e')"
          by (rule under_parent_strict[OF e'(2) strictly_under_names[OF sun[OF e'(1)]]])
        then have "strict_prefix (rel_parts (fst e)) (rel_parts (fst e'))"
          using joinpath_strictly_under_iff[of "fst e" "fst e'" d] relr(1) reln(1) e e'(1) by blast
        then show False using pfr e e'(1) by blast
      qed
      with False have "?f2 (?T e) = ?f1 (?T e)" by (rule nested_result_other)
      then show ?thesis using mk_dirs_fresh[OF wf d sur[OF e]] by simp
    qed
    have ok: "asset_ok fs d (?S e)" using ast e by (simp add: assets_ok_def)
    show "?f2 (?S e) \<noteq> Some Dir" using asset2[OF ok] ok by (simp add: asset_ok_def)
    show "\<not> under d (?S e)" using ok by (simp add: asset_ok_def)
  next
    fix e e' assume e: "e \<in> set r" "e' \<in> set r"
    have "parent (?T e') = d" using relr e(2) by (blast intro: root_target_parent)
    then show "parent (?T e') \<noteq> ?T e" using sur[OF e(1)] by (simp add: strictly_under_iff)
  qed
  from copy_root_files_ok[OF ready2]
  show "copy_root_files a d r ?f2 = (None, root_result a d r ?f2)"
    and "wf_fs (root_result a d r ?f2)" by blast+
  show "?f2 (joinpath d t) = None"
    if t: "take 1 t \<noteq> ''/''" "rel_parts t \<noteq> []"
      "\<forall>e\<in>set n. \<not> prefix (rel_parts t) (rel_parts (fst e))" for t
  proof -
    let ?q = "joinpath d t"
    have su: "strictly_under d ?q" by (rule joinpath_strictly_under[OF t(1,2)])
    have "?q \<notin> ?T ` set n"
    proof
      assume "?q \<in> ?T ` set n"
      then obtain e where e: "e \<in> set n" "?q = ?T e" by blast
      then have "rel_parts t = rel_parts (fst e)"
        using joinpath_eq_iff[of t "fst e" d] t(1) reln(1) by blast
      then show False using t(3) e(1) by auto
    qed
    moreover have "\<not> (\<exists>e\<in>set n. under ?q (parent (?T e)))"
    proof
      assume "\<exists>e\<in>set n. under ?q (parent (?T e))"
      then obtain e where e: "e \<in> set n" "under ?q (parent (?T e))" by blast
      have "strictly_under ?q (?T e)"
        by (rule under_parent_strict[OF e(2) strictly_under_names[OF sun[OF e(1)]]])
      then have "strict_prefix (rel_parts t) (rel_parts (fst e))"
        using joinpath_strictly_under_iff[of t "fst e" d] t(1) reln(1) e(1) by blast
      then show False using t(3) e(1) by (auto simp: strict_prefix_def)
    qed
    ultimately have "?f2 ?q = ?f1 ?q" by (rule nested_result_other)
    then show ?thesis using mk_dirs_fresh[OF wf d su] by simp
  qed
qed

lemma nested_result_perm:
  assumes "mset n' = mset n" "distinct (map (\<lambda>e. joinpath d (fst e)) n)"
  shows "nested_result a d n' fs = nested_result a d n fs"
proof -
  let ?f = "\<lambda>e. (joinpath d (fst e), content fs a e)"
  have s: "set n' = set n" by (rule mset_eq_setD[OF assms(1)])
  have "mset (map (\<lambda>e. joinpath d (fst e)) n') = mset (map (\<lambda>e. joinpath d (fst e)) n)"
    using assms(1) by simp
  then have d': "distinct (map (\<lambda>e. joinpath d (fst e)) n')"
    using assms(2) mset_eq_imp_distinct_iff by blast
  have "distinct (map fst (map ?f n'))" "distinct (map fst (map ?f n))"
    using assms(2) d' by (simp_all add: comp_def)
  then have "map_of (map ?f n') = map_of (map ?f n) \<longleftrightarrow> set (map ?f n') = set (map ?f n)"
    by (rule map_of_inject_set)
  then have "map_of (map ?f n') = map_of (map ?f n)" using s by simp
  then show ?thesis unfolding nested_result_def s by simp
qed

lemma root_result_perm:
  assumes "mset r' = mset r" "distinct (map (\<lambda>e. joinpath d (fst e)) r)"
  shows "root_result a d r' fs = root_result a d r fs"
proof -
  let ?f = "\<lambda>e. (joinpath d (fst e), fs (joinpath a (snd e)))"
  have s: "set r' = set r" by (rule mset_eq_setD[OF assms(1)])
  have "mset (map (\<lambda>e. joinpath d (fst e)) r') = mset (map (\<lambda>e. joinpath d (fst e)) r)"
    using assms(1) by simp
  then have d': "distinct (map (\<lambda>e. joinpath d (fst e)) r')"
    using assms(2) mset_eq_imp_distinct_iff by blast
  have "distinct (map fst (map ?f r'))" "distinct (map fst (map ?f r))"
    using assms(2) d' by (simp_all add: comp_def)
  then have "map_of (map ?f r') = map_of (map ?f r) \<longleftrightarrow> set (map ?f r') = set (map ?f r)"
    by (rule map_of_inject_set)
  then have "map_of (map ?f r') = map_of (map ?f r)" using s by simp
  then show ?thesis unfolding root_result_def by simp
qed

lemma layout_ok_perm:
  assumes "mset n' = mset n" "mset r' = mset r" "layout_ok n r"
  shows "layout_ok n' r'"
proof -
  have s: "set n' = set n" "set r' = set r"
    using assms(1,2) by (blast dest: mset_eq_setD)+
  have "mset (map (\<lambda>e. rel_parts (fst e)) n') = mset (map (\<lambda>e. rel_parts (fst e)) n)"
    using assms(1) by simp
  then have d1: "distinct (map (\<lambda>e. rel_parts (fst e)) n') \<longleftrightarrow> distinct (map (\<lambda>e. rel_parts (fst e)) n)"
    by (rule mset_eq_imp_distinct_iff)
  have "mset (map (\<lambda>e. rel_parts (fst e)) r') = mset (map (\<lambda>e. rel_parts (fst e)) r)"
    using assms(2) by simp
  then have d2: "distinct (map (\<lambda>e. rel_parts (fst e)) r') \<longleftrightarrow> distinct (map (\<lambda>e. rel_parts (fst e)) r)"
    by (rule mset_eq_imp_distinct_iff)
  note dd = d1 d2
  from assms(3) show ?thesis unfolding layout_ok_def s dd .
qed

lemma assets_ok_perm:
  assumes "mset n' = mset n" "mset r' = mset r" "assets_ok a d n r fs"
  shows "assets_ok a d n' r' fs"
proof -
  have s: "set n' = set n" "set r' = set r"
    using assms(1,2) by (blast dest: mset_eq_setD)+
  from assms(3) show ?thesis unfolding assets_ok_def s .
qed

lemma mkdir_success_no_file:
  assumes "mkdir d True False fs = (None, fs1)" "under q d"
  shows "fs q \<noteq> Some (File c)"
proof -
  have da: "dirs_added d fs fs1" by (rule mkdir_dirs_added[OF assms(1)])
  have "is_dir fs1 d" by (rule mkdir_success_is_dir[OF assms(1)])
  then have "fs1 q = Some Dir"
    using assms(2) by (cases "q = d") (auto simp: is_dir_iff walk_None_iff strictly_under_iff)
  moreover from da[unfolded dirs_added_def]
  have "fs1 q = fs q \<or> (fs q = None \<and> fs1 q = Some Dir \<and> under q d)" by (rule spec)
  ultimately show ?thesis by auto
qed

lemma layout_distinct:
  assumes "layout_ok n r"
  shows "distinct (map (\<lambda>e. joinpath d (fst e)) n)" "distinct (map (\<lambda>e. joinpath d (fst e)) r)"
  using assms by (auto simp: layout_ok_def intro!: distinct_targets)

lemma root_result_not_dir: "fs q \<noteq> Some Dir \<Longrightarrow> root_result a d r fs q \<noteq> Some Dir"
  unfolding root_result_def by (auto split: option.splits node.splits)

lemma nested_result_not_dir:
  assumes dist: "distinct (map (\<lambda>e. joinpath d (fst e)) n)"
    and rel: "\<forall>e\<in>set n. take 1 (fst e) \<noteq> ''/'' \<and> rel_parts (fst e) \<noteq> []"
    and t: "take 1 t \<noteq> ''/''" "\<forall>e\<in>set n. \<not> strict_prefix (rel_parts t) (rel_parts (fst e))"
    and q: "fs (joinpath d t) \<noteq> Some Dir"
  shows "nested_result a d n fs (joinpath d t) \<noteq> Some Dir"
proof (cases "joinpath d t \<in> (\<lambda>e. joinpath d (fst e)) ` set n")
  case True
  then obtain e where e: "e \<in> set n" "joinpath d t = joinpath d (fst e)" by blast
  show ?thesis using nested_result_target[OF dist e(1), of a fs] e(2) by simp
next
  case False
  have "\<not> (\<exists>e\<in>set n. under (joinpath d t) (parent (joinpath d (fst e))))"
  proof
    assume "\<exists>e\<in>set n. under (joinpath d t) (parent (joinpath d (fst e)))"
    then obtain e where e: "e \<in> set n" "under (joinpath d t) (parent (joinpath d (fst e)))" by blast
    have "strictly_under d (joinpath d (fst e))"
      using rel e(1) by (blast intro: joinpath_strictly_under)
    then have "names (joinpath d (fst e)) \<noteq> []" by (rule strictly_under_names)
    then have "strictly_under (joinpath d t) (joinpath d (fst e))"
      by (rule under_parent_strict[OF e(2)])
    then have "strict_prefix (rel_parts t) (rel_parts (fst e))"
      using joinpath_strictly_under_iff[of t "fst e" d] t(1) rel e(1) by blast
    then show False using t(2) e(1) by blast
  qed
  with False have "nested_result a d n fs (joinpath d t) = fs (joinpath d t)"
    by (rule nested_result_other)
  then show ?thesis using q by simp
qed

lemma create_project_with_ok:
  assumes wf: "wf_fs fs" and d: "fs (joinpath out name) = None"
    and nf: "\<forall>q. under q (joinpath out name) \<longrightarrow> (\<forall>c. fs q \<noteq> Some (File c))"
    and lay: "layout_ok n r" and ast: "assets_ok a (joinpath out name) n r fs"
    and syn: "\<forall>e\<in>set n. \<not> strict_prefix [''.env.example''] (rel_parts (fst e))"
             "\<forall>e\<in>set n. \<not> strict_prefix [''README.md''] (rel_parts (fst e))"
  shows "create_project_with n r a name out fs =
     (Returned 0,
      (root_result a (joinpath out name) r
         (nested_result a (joinpath out name) n (mk_dirs (joinpath out name) fs)))
        (joinpath (joinpath out name) ''.env.example'' \<mapsto> File env_text,
         joinpath (joinpath out name) ''README.md'' \<mapsto> File (readme_text name)))"
proof -
  let ?d = "joinpath out name"
  let ?f1 = "mk_dirs ?d fs"
  let ?f2 = "nested_result a ?d n ?f1"
  let ?f3 = "root_result a ?d r ?f2"
  let ?env = "joinpath ?d ''.env.example''"
  let ?readme = "joinpath ?d ''README.md''"
  let ?f4 = "?f3(?env \<mapsto> File env_text)"
  note A = loops_ok[OF wf d nf lay ast]
  from lay have reln: "\<forall>e\<in>set n. take 1 (fst e) \<noteq> ''/'' \<and> rel_parts (fst e) \<noteq> []"
    by (simp add: layout_ok_def)
  have distn: "distinct (map (\<lambda>e. joinpath ?d (fst e)) n)" by (rule layout_distinct(1)[OF lay])
  have ex: "\<not> exists fs ?d" using wf d by (simp add: wf_exists)
  have sun: "\<forall>e\<in>set n. strictly_under ?d (joinpath ?d (fst e))"
    using A(5) by (simp add: nested_ready_def)
  have sur: "\<forall>e\<in>set r. strictly_under ?d (joinpath ?d (fst e))"
    using A(6) by (simp add: root_ready_def)
  have f1d: "?f1 ?d = Some Dir" by (simp add: mk_dirs_def)
  have f2d: "?f2 ?d = Some Dir" using f1d sun by (rule nested_result_dir)
  have "?d \<notin> (\<lambda>e. joinpath ?d (fst e)) ` set r" using sur by (auto simp: strictly_under_iff)
  then have f3d: "?f3 ?d = Some Dir" using f2d by (simp add: root_result_other)
  have e1: "strictly_under ?d ?env" by (rule joinpath_strictly_under) simp_all
  have e2: "strictly_under ?d ?readme" by (rule joinpath_strictly_under) simp_all
  have p1: "parent ?env = ?d" by (rule root_target_parent) simp_all
  have p2: "parent ?readme = ?d" by (rule root_target_parent) simp_all
  have "?f1 ?env = None" by (rule mk_dirs_fresh[OF wf d e1])
  then have "?f2 ?env \<noteq> Some Dir"
    by (intro nested_result_not_dir[OF distn reln]) (use syn in simp_all)
  then have env3: "?f3 ?env \<noteq> Some Dir" by (rule root_result_not_dir)
  have "?f1 ?readme = None" by (rule mk_dirs_fresh[OF wf d e2])
  then have "?f2 ?readme \<noteq> Some Dir"
    by (intro nested_result_not_dir[OF distn reln]) (use syn in simp_all)
  then have readme3: "?f3 ?readme \<noteq> Some Dir" by (rule root_result_not_dir)
  have w1: "write_text ?env env_text ?f3 = (None, ?f4)"
    by (rule write_text_ok[OF A(4) _ env3]) (simp add: p1 f3d)
  have wf4: "wf_fs ?f4" by (rule wf_upd_file[OF A(4) _ env3]) (simp add: p1 f3d)
  have ne: "?env \<noteq> ?readme" "?d \<noteq> ?env" using e1 by (auto simp: joinpath_env joinpath_readme strictly_under_iff)
  have w2: "write_text ?readme (readme_text name) ?f4 = (None, ?f4(?readme \<mapsto> File (readme_text name)))"
    by (rule write_text_ok[OF wf4]) (use ne readme3 f3d in \<open>simp_all add: p2\<close>)
  show ?thesis
    using ex A(1-3) w1 w2 by (simp add: create_project_with_def Let_def seq_def del: fun_upd_apply)
qed

lemma split_sep_no_sep: "c \<notin> set s \<Longrightarrow> split_sep c s = [s]"
  by (induction s) auto

lemma joinpath_single:
  assumes "single_segment s"
  shows "joinpath p s = Path (anchor p) (names p @ [s])"
proof -
  from assms have "CHR ''/'' \<notin> set s" "s \<noteq> []" "s \<noteq> ''.''" by (auto simp: single_segment_def)
  then have "rel_parts s = [s]" "take 1 s \<noteq> ''/''"
    by (auto simp: rel_parts_def split_sep_no_sep) (cases s; auto)
  then show ?thesis by (simp add: joinpath_rel)
qed

lemma fixed_layout: "layout_ok TEMPLATES ROOT_FILES"
  by code_simp

lemma fixed_synth:
  "\<forall>e\<in>set TEMPLATES. \<not> strict_prefix [''.env.example''] (rel_parts (fst e))"
  "\<forall>e\<in>set TEMPLATES. \<not> strict_prefix [''README.md''] (rel_parts (fst e))"
  by code_simp+

lemma fixed_templates_apart:
  "\<forall>e\<in>set TEMPLATES. rel_parts (fst e) \<noteq> [''.env.example''] \<and> rel_parts (fst e) \<noteq> [''README.md'']
      \<and> rel_parts (fst e) \<notin> set (map (\<lambda>e. rel_parts (fst e)) ROOT_FILES)"
  by code_simp

lemma fixed_root_apart:
  "\<forall>e\<in>set ROOT_FILES. rel_parts (fst e) \<noteq> [''.env.example''] \<and> rel_parts (fst e) \<noteq> [''README.md'']
      \<and> (\<forall>e'\<in>set TEMPLATES. \<not> prefix (rel_parts (fst e)) (rel_parts (fst e')))"
  by code_simp

lemma fixed_keys:
  "\<forall>k\<in>set asset_keys. take 1 k \<noteq> ''/'' \<and> length (rel_parts k) = 1"
  "\<forall>k\<in>set asset_keys. \<forall>x\<in>set (rel_parts k). single_segment x"
  by code_simp+

lemma fixed_short:
  "\<forall>e\<in>set TEMPLATES. length (rel_parts (fst e)) \<le> 3"
  "\<forall>e\<in>set ROOT_FILES. length (rel_parts (fst e)) \<le> 3"
  by code_simp+

lemma sum_list_length_bound:
  "\<forall>x\<in>set ys. length x \<le> k \<Longrightarrow> sum_list (map length ys) \<le> k * length ys"
  by (induction ys) auto

lemma usable_append:
  assumes r: "roomy p" and ys: "\<forall>x\<in>set ys. single_segment x" "length ys \<le> 4"
  shows "usable (Path (anchor p) (names p @ ys))"
proof -
  from r have 1: "\<forall>x\<in>set (names p). single_segment x" "length (names p) \<le> 400"
    "path_len p \<le> 2500" by (simp_all add: roomy_def)
  have "\<forall>x\<in>set ys. length x \<le> 255" using ys(1) by (simp add: single_segment_def)
  then have "sum_list (map length ys) \<le> 255 * length ys" by (rule sum_list_length_bound)
  then have 2: "sum_list (map length ys) \<le> 1020" using ys(2) by simp
  have "path_len (Path (anchor p) (names p @ ys))
      = path_len p + sum_list (map length ys) + length ys"
    by (simp add: path_len_def)
  then have "path_len (Path (anchor p) (names p @ ys)) \<le> 4095" using 1(3) 2 ys(2) by simp
  then show ?thesis using 1(1,2) ys by (auto simp: usable_def)
qed

lemma usable_joinpath:
  assumes "roomy p" "take 1 t \<noteq> ''/''" "\<forall>x\<in>set (rel_parts t). single_segment x"
    "length (rel_parts t) \<le> 4"
  shows "usable (joinpath p t)"
  using usable_append[OF assms(1,3,4)] assms(2) by (simp add: joinpath_rel)

lemma usable_targets:
  assumes ro: "roomy out" and seg: "single_segment name"
  shows "paths_usable (joinpath out name) TEMPLATES ROOT_FILES"
proof -
  let ?d = "joinpath out name"
  have deq: "?d = Path (anchor out) (names out @ [name])" by (rule joinpath_single[OF seg])
  have t: "usable (joinpath ?d t)"
    if "take 1 t \<noteq> ''/''" "\<forall>x\<in>set (rel_parts t). single_segment x" "length (rel_parts t) \<le> 3"
    for t
  proof -
    have "usable (Path (anchor out) (names out @ (name # rel_parts t)))"
      by (rule usable_append[OF ro]) (use seg that in auto)
    then show ?thesis using that(1) by (simp add: joinpath_rel deq)
  qed
  have "usable (Path (anchor out) (names out @ [name]))"
    by (rule usable_append[OF ro]) (use seg in auto)
  then have 0: "usable ?d" by (simp add: deq)
  have 1: "\<forall>e\<in>set TEMPLATES. usable (joinpath ?d (fst e))"
    using fixed_layout manifest_targets(1) fixed_short(1) by (intro ballI t) (auto simp: layout_ok_def)
  have 2: "\<forall>e\<in>set ROOT_FILES. usable (joinpath ?d (fst e))"
    using fixed_layout manifest_targets(2) fixed_short(2) by (intro ballI t) (auto simp: layout_ok_def)
  have s1: "single_segment ''.env.example''" and s2: "single_segment ''README.md''" by code_simp+
  have 3: "usable (joinpath ?d ''.env.example'')" by (rule t) (simp_all add: s1)
  have 4: "usable (joinpath ?d ''README.md'')" by (rule t) (simp_all add: s2)
  show ?thesis using 0 1 2 3 4 by (simp add: paths_usable_def)
qed

lemma usable_asset:
  assumes "roomy a" "k \<in> set asset_keys"
  shows "usable (joinpath a k)" "anchor (joinpath a k) = anchor a"
proof -
  from fixed_keys assms(2) have k: "take 1 k \<noteq> ''/''" "length (rel_parts k) = 1"
    "\<forall>x\<in>set (rel_parts k). single_segment x" by blast+
  show "usable (joinpath a k)" by (rule usable_joinpath[OF assms(1) k(1,3)]) (simp add: k(2))
  show "anchor (joinpath a k) = anchor a" using k(1) by (simp add: joinpath_rel)
qed

lemma create_project_ok:
  assumes "scaffoldable a (joinpath out name) fs"
  shows "create_project a name out fs =
     (Returned 0,
      (root_result a (joinpath out name) ROOT_FILES
         (nested_result a (joinpath out name) TEMPLATES (mk_dirs (joinpath out name) fs)))
        (joinpath (joinpath out name) ''.env.example'' \<mapsto> File env_text,
         joinpath (joinpath out name) ''README.md'' \<mapsto> File (readme_text name)))"
  unfolding create_project_def
  by (rule create_project_with_ok[OF _ _ _ fixed_layout _ fixed_synth])
     (use assms in \<open>simp_all add: scaffoldable_def\<close>)

lemma final_template:
  assumes sc: "scaffoldable a (joinpath out name) fs" and e: "e \<in> set TEMPLATES"
  shows "snd (create_project a name out fs) (joinpath (joinpath out name) (fst e))
           = Some (File (content fs a e))"
proof -
  let ?d = "joinpath out name"
  let ?T = "\<lambda>e. joinpath ?d (fst e)"
  let ?f1 = "mk_dirs ?d fs"
  let ?f2 = "nested_result a ?d TEMPLATES ?f1"
  from sc have wf: "wf_fs fs" and d: "fs ?d = None"
    and nf: "\<forall>q. under q ?d \<longrightarrow> (\<forall>c. fs q \<noteq> Some (File c))"
    and ast: "assets_ok a ?d TEMPLATES ROOT_FILES fs" by (simp_all add: scaffoldable_def)
  note A = loops_ok[OF wf d nf fixed_layout ast]
  have rel: "take 1 (fst e) \<noteq> ''/''" using manifest_targets(1) e by blast
  have relr: "\<And>e'. e' \<in> set ROOT_FILES \<Longrightarrow> take 1 (fst e') \<noteq> ''/''"
    using manifest_targets(2) by blast
  from fixed_templates_apart e
  have ap: "rel_parts (fst e) \<noteq> [''.env.example'']" "rel_parts (fst e) \<noteq> [''README.md'']"
    "rel_parts (fst e) \<notin> set (map (\<lambda>e. rel_parts (fst e)) ROOT_FILES)" by blast+
  have n1: "?T e \<noteq> joinpath ?d ''.env.example''" "?T e \<noteq> joinpath ?d ''README.md''"
    using ap(1,2) rel by (simp_all add: joinpath_rel)
  have "?T e \<notin> ?T ` set ROOT_FILES"
  proof
    assume "?T e \<in> ?T ` set ROOT_FILES"
    then obtain e' where e': "e' \<in> set ROOT_FILES" "?T e = ?T e'" by blast
    then have "rel_parts (fst e) = rel_parts (fst e')"
      using joinpath_eq_iff[of "fst e" "fst e'" ?d] rel relr by blast
    then show False using ap(3) e'(1) by auto
  qed
  then have "root_result a ?d ROOT_FILES ?f2 (?T e) = ?f2 (?T e)" by (rule root_result_other)
  also have "\<dots> = Some (File (content ?f1 a e))"
    by (rule nested_result_target[OF layout_distinct(1)[OF fixed_layout] e])
  also have "content ?f1 a e = content fs a e"
  proof (cases "snd e = []")
    case True then show ?thesis by (simp add: content_def)
  next
    case False
    then have "asset_ok fs ?d (joinpath a (snd e))" using ast e by (simp add: assets_ok_def)
    then have "?f1 (joinpath a (snd e)) = fs (joinpath a (snd e))" by (rule A(8))
    then show ?thesis by (simp add: content_def)
  qed
  finally show ?thesis using n1 by (simp add: create_project_ok[OF sc])
qed

lemma final_root_file:
  assumes sc: "scaffoldable a (joinpath out name) fs" and e: "e \<in> set ROOT_FILES"
  shows "snd (create_project a name out fs) (joinpath (joinpath out name) (fst e))
           = (case fs (joinpath a (snd e)) of Some (File c) \<Rightarrow> Some (File c) | _ \<Rightarrow> None)"
proof -
  let ?d = "joinpath out name"
  let ?T = "\<lambda>e. joinpath ?d (fst e)"
  let ?f1 = "mk_dirs ?d fs"
  let ?f2 = "nested_result a ?d TEMPLATES ?f1"
  from sc have wf: "wf_fs fs" and d: "fs ?d = None"
    and nf: "\<forall>q. under q ?d \<longrightarrow> (\<forall>c. fs q \<noteq> Some (File c))"
    and ast: "assets_ok a ?d TEMPLATES ROOT_FILES fs" by (simp_all add: scaffoldable_def)
  note A = loops_ok[OF wf d nf fixed_layout ast]
  have rel: "take 1 (fst e) \<noteq> ''/''" "rel_parts (fst e) \<noteq> []" using manifest_targets(2) e by blast+
  from fixed_root_apart e
  have ap: "rel_parts (fst e) \<noteq> [''.env.example'']" "rel_parts (fst e) \<noteq> [''README.md'']"
    "\<forall>e'\<in>set TEMPLATES. \<not> prefix (rel_parts (fst e)) (rel_parts (fst e'))" by blast+
  have n1: "?T e \<noteq> joinpath ?d ''.env.example''" "?T e \<noteq> joinpath ?d ''README.md''"
    using ap(1,2) rel by (simp_all add: joinpath_rel)
  have ok: "asset_ok fs ?d (joinpath a (snd e))" using ast e by (simp add: assets_ok_def)
  have "root_result a ?d ROOT_FILES ?f2 (?T e)
      = (case ?f2 (joinpath a (snd e)) of Some (File c) \<Rightarrow> Some (File c) | _ \<Rightarrow> ?f2 (?T e))"
    by (rule root_result_target[OF layout_distinct(2)[OF fixed_layout] e])
  also have "?f2 (joinpath a (snd e)) = fs (joinpath a (snd e))" by (rule A(7)[OF ok])
  also have "?f2 (?T e) = None" by (rule A(9)[OF rel ap(3)])
  finally show ?thesis using n1 by (simp add: create_project_ok[OF sc])
qed








lemma wf_fs_of:
  assumes "\<forall>(p, n)\<in>set es. fs_of es (parent p) = Some Dir"
  shows "wf_fs (fs_of es)"
  unfolding wf_fs_def
proof (intro conjI allI impI)
  fix r show "fs_of es (Path r []) = Some Dir" by (simp add: fs_of_def)
next
  fix p assume p: "fs_of es p \<noteq> None"
  show "fs_of es (parent p) = Some Dir"
  proof (cases "names p = []")
    case True
    then show ?thesis by (simp add: fs_of_def parent_def)
  next
    case False
    with p obtain n where "map_of es p = Some n" by (auto simp: fs_of_def)
    then have "(p, n) \<in> set es" by (rule map_of_SomeD)
    with assms show ?thesis by blast
  qed
qed

lemma empty_dir_fs_of:
  assumes "fs_of es p = Some Dir" "\<forall>(q, n)\<in>set es. \<not> strictly_under p q"
  shows "empty_dir (fs_of es) p"
  unfolding empty_dir_def
proof (intro conjI allI impI)
  show "fs_of es p = Some Dir" by (rule assms(1))
next
  fix q assume q: "strictly_under p q"
  then have ne: "names q \<noteq> []" by (rule strictly_under_names)
  show "fs_of es q = None"
  proof (cases "map_of es q")
    case None
    then show ?thesis using ne by (simp add: fs_of_def)
  next
    case (Some n)
    then have "(q, n) \<in> set es" by (rule map_of_SomeD)
    with assms(2) q show ?thesis by blast
  qed
qed

lemma fresh_dir_scaffoldable:
  assumes wf: "wf_fs fs" and seg: "single_segment name" and od: "fs out = Some Dir"
    and dn: "fs (joinpath out name) = None" and oa: "out \<noteq> a"
    and script: "fs (joinpath a ''init_project.py'') \<noteq> None"
    and nd: "\<forall>k\<in>set asset_keys. fs (joinpath a k) \<noteq> Some Dir"
    and ro: "roomy out" and ra: "roomy a" and an: "anchor a = anchor out"
  shows "scaffoldable a (joinpath out name) fs"
proof -
  let ?d = "joinpath out name"
  let ?p0 = "joinpath a ''init_project.py''"
  have deq: "?d = Path (anchor out) (names out @ [name])" by (rule joinpath_single[OF seg])
  have pd: "parent ?d = out" unfolding deq by (cases out) (simp add: parent_def)
  have sd: "strictly_under out ?d" unfolding deq by (simp add: strictly_under_def strict_prefix_def)
  have ned: "names ?d \<noteq> []" by (rule strictly_under_names[OF sd])
  have above: "fs q = Some Dir" if "under q out" for q
  proof (cases "q = out")
    case True then show ?thesis using od by simp
  next
    case False
    show ?thesis by (rule wf_prefix_dir[OF wf _ that False]) (simp add: od)
  qed
  have nf: "\<forall>q. under q ?d \<longrightarrow> (\<forall>c. fs q \<noteq> Some (File c))"
  proof (intro allI impI)
    fix q c assume "under q ?d"
    then have "q = ?d \<or> under q out" using under_parent_iff[of q ?d] pd by auto
    then show "fs q \<noteq> Some (File c)" using dn above by auto
  qed
  have pp0: "parent ?p0 = a" by (rule root_target_parent) (simp_all add: rel_parts_def)
  have key: "asset_ok fs ?d (joinpath a k)" if k: "k \<in> set asset_keys" for k
  proof -
    let ?s = "joinpath a k"
    have ps: "parent ?s = a" using fixed_keys k by (blast intro: root_target_parent)
    have sdir: "fs ?s \<noteq> Some Dir" using nd k by blast
    have n1: "\<not> under ?d ?s"
    proof
      assume u: "under ?d ?s"
      then have "?d = ?s \<or> under ?d a" using under_parent_iff[of ?d ?s] ps by auto
      then show False
      proof
        assume "under ?d a"
        then have up: "under ?d ?p0" using under_trans[OF _ under_parent[of ?p0]] pp0 by simp
        have "?d \<noteq> ?p0" using dn script by auto
        from wf_prefix_dir[OF wf script up this] dn show False by simp
      next
        assume "?d = ?s"
        then have "out = a" using pd ps by metis
        then show False using oa by simp
      qed
    qed
    have n2: "\<not> under ?s ?d"
    proof
      assume "under ?s ?d"
      then have "?s = ?d \<or> under ?s out" using under_parent_iff[of ?s ?d] pd by auto
      then show False
      proof
        assume "?s = ?d" then show False using n1 by simp
      next
        assume "under ?s out" from above[OF this] sdir show False by simp
      qed
    qed
    have "anchor ?d = anchor out" unfolding deq by simp
    then show ?thesis
      using sdir n1 n2 usable_asset[OF ra k] an by (simp add: asset_ok_def)
  qed
  have "assets_ok a ?d TEMPLATES ROOT_FILES fs"
    unfolding assets_ok_def
  proof (intro conjI ballI impI)
    fix e assume "e \<in> set TEMPLATES" "snd e \<noteq> []"
    then have "snd e \<in> set asset_keys" by (simp add: asset_keys_def)
    then show "asset_ok fs ?d (joinpath a (snd e))" by (rule key)
  next
    fix e assume "e \<in> set ROOT_FILES"
    then have "snd e \<in> set asset_keys" by (simp add: asset_keys_def)
    then show "asset_ok fs ?d (joinpath a (snd e))" by (rule key)
  qed
  then show ?thesis using wf dn nf usable_targets[OF ro seg] by (simp add: scaffoldable_def)
qed

lemma empty_dir_scaffoldable:
  assumes wf: "wf_fs fs" and seg: "single_segment name" and out: "empty_dir fs out"
    and script: "fs (joinpath a ''init_project.py'') \<noteq> None"
    and nd: "\<forall>k\<in>set asset_keys. fs (joinpath a k) \<noteq> Some Dir"
    and ro: "roomy out" and ra: "roomy a" and an: "anchor a = anchor out"
  shows "scaffoldable a (joinpath out name) fs"
proof -
  from out have od: "fs out = Some Dir" and emp: "\<And>q. strictly_under out q \<Longrightarrow> fs q = None"
    by (simp_all add: empty_dir_def)
  have "strictly_under out (joinpath out name)"
    unfolding joinpath_single[OF seg] by (simp add: strictly_under_def strict_prefix_def)
  then have dn: "fs (joinpath out name) = None" by (rule emp)
  have "out \<noteq> a"
  proof
    assume "out = a"
    then have "strictly_under out (joinpath a ''init_project.py'')"
      by (simp add: joinpath_strictly_under rel_parts_def)
    from emp[OF this] script show False by simp
  qed
  then show ?thesis by (rule fresh_dir_scaffoldable[OF wf seg od dn _ script nd ro ra an])
qed

lemma example_wf: "wf_fs example_fs" "wf_fs example_fs_docker"
  unfolding example_fs_def example_fs_docker_def by (rule wf_fs_of, code_simp)+

lemma example_empty:
  "empty_dir example_fs (parse_path ''/tmp/out'')" "empty_dir example_fs_docker (parse_path ''/tmp/out'')"
  unfolding example_fs_def example_fs_docker_def by (rule empty_dir_fs_of; code_simp)+

lemma example_segment: "single_segment ''demo''"
  by code_simp

lemma example_script:
  "example_fs (joinpath example_assets ''init_project.py'') \<noteq> None"
  "example_fs_docker (joinpath example_assets ''init_project.py'') \<noteq> None"
  by code_simp+

lemma example_keys:
  "\<forall>k\<in>set asset_keys. example_fs (joinpath example_assets k) \<noteq> Some Dir"
  "\<forall>k\<in>set asset_keys. example_fs_docker (joinpath example_assets k) \<noteq> Some Dir"
  by code_simp+

lemma example_roomy:
  "roomy (parse_path ''/tmp/out'')" "roomy example_assets"
  "anchor example_assets = anchor (parse_path ''/tmp/out'')"
  "roomy (parse_path ''/tmp'')" "anchor example_assets = anchor (parse_path ''/tmp'')"
  by code_simp+

lemma example_scaffoldable:
  "scaffoldable example_assets (joinpath (parse_path ''/tmp/out'') ''demo'') example_fs"
  "scaffoldable example_assets (joinpath (parse_path ''/tmp/out'') ''demo'') example_fs_docker"
  by (rule empty_dir_scaffoldable example_wf example_empty example_segment example_script
      example_keys example_roomy)+

section \<open>The concrete runs\<close>

lemma example_run:
  "fst (create_project example_assets ''demo'' (parse_path ''/tmp/out'') example_fs) = Returned 0"
  by (simp add: create_project_ok[OF example_scaffoldable(1)])

lemma example_run_pair:
  "create_project example_assets ''demo'' (parse_path ''/tmp/out'') example_fs
     = (Returned 0, snd (create_project example_assets ''demo'' (parse_path ''/tmp/out'') example_fs))"
  using example_run by (simp add: prod_eq_iff)


lemma newline_name_scaffoldable:
  "scaffoldable example_assets (joinpath (parse_path ''/tmp/out'') [CHR ''a'', nl, CHR ''b'']) example_fs"
proof -
  have "single_segment [CHR ''a'', nl, CHR ''b'']" by code_simp
  then show ?thesis
    by (rule empty_dir_scaffoldable[OF example_wf(1) _ example_empty(1) example_script(1)
        example_keys(1) example_roomy(1,2,3)])
qed

lemma newline_name_run:
  "fst (create_project example_assets [CHR ''a'', nl, CHR ''b''] (parse_path ''/tmp/out'') example_fs)
     = Returned 0"
  by (simp add: create_project_ok[OF newline_name_scaffoldable])

lemma example_paths:
  "parse_path ''/tmp/out/demo/.env.example''
     = joinpath (joinpath (parse_path ''/tmp/out'') ''demo'') ''.env.example''"
  "parse_path ''/tmp/out/demo/Dockerfile''
     = joinpath (joinpath (parse_path ''/tmp/out'') ''demo'') ''Dockerfile''"
  by code_simp+


lemma example_contents:
  "content example_fs example_assets (''app/__init__.py'', '''') = []"
  "content example_fs example_assets (''app/routers/__init__.py'', ''routers_init.py'')
     = ''from fastapi import APIRouter''"
  "content example_fs example_assets (''tests/conftest.py'', ''conftest.py'') = []"
  "content example_fs example_assets (''app/main.py'', ''main.py'')
     = ''from contextlib import asynccontextmanager''"
  by code_simp+

lemma example_members:
  "(''app/__init__.py'', '''') \<in> set TEMPLATES"
  "(''app/routers/__init__.py'', ''routers_init.py'') \<in> set TEMPLATES"
  "(''tests/conftest.py'', ''conftest.py'') \<in> set TEMPLATES"
  "(''app/main.py'', ''main.py'') \<in> set TEMPLATES"
  "(''Dockerfile'', ''Dockerfile'') \<in> set ROOT_FILES"
  by (simp_all add: TEMPLATES_def ROOT_FILES_def)

text \<open>
  A run that fails partway: the asset \<^verbatim>\<open>config.py\<close> is a directory. The exception names the
  asset, the files written before it stay, the later ones are never written.
\<close>

lemma partial_failure_example:
  "fst (create_project example_assets ''demo'' (parse_path ''/tmp/out'') example_fs_broken)
     = Raised (OSError EISDIR (Path Slash [''srv'', ''assets'', ''config.py'']))
   \<and> snd (create_project example_assets ''demo'' (parse_path ''/tmp/out'') example_fs_broken)
        (parse_path ''/tmp/out/demo/app/main.py'')
       = Some (File ''from contextlib import asynccontextmanager'')
   \<and> snd (create_project example_assets ''demo'' (parse_path ''/tmp/out'') example_fs_broken)
        (parse_path ''/tmp/out/demo/app/core/config.py'') = None"
  by code_simp




lemma empty_name_scaffoldable:
  "scaffoldable example_assets (parse_path ''/tmp/new'') example_fs"
proof -
  have 1: "single_segment ''new''" by code_simp
  have 2: "example_fs (parse_path ''/tmp'') = Some Dir" by code_simp
  have 3: "example_fs (joinpath (parse_path ''/tmp'') ''new'') = None" by code_simp
  have 4: "parse_path ''/tmp'' \<noteq> example_assets" by code_simp
  have 5: "joinpath (parse_path ''/tmp'') ''new'' = parse_path ''/tmp/new''" by code_simp
  show ?thesis
    using fresh_dir_scaffoldable[OF example_wf(1) 1 2 3 4 example_script(1) example_keys(1)
        example_roomy(4,2,5)]
    by (simp add: 5)
qed

text \<open>
  The same broken asset with the nested manifest in reverse order: the run fails at the same
  asset, and this time \<^verbatim>\<open>app/main.py\<close> has not been written. What a failed run leaves
  behind depends on the order of the manifest.
\<close>

lemma reversed_failure_example:
  "fst (create_project_with (rev TEMPLATES) ROOT_FILES example_assets ''demo''
          (parse_path ''/tmp/out'') example_fs_broken)
     = Raised (OSError EISDIR (Path Slash [''srv'', ''assets'', ''config.py'']))
   \<and> snd (create_project_with (rev TEMPLATES) ROOT_FILES example_assets ''demo''
          (parse_path ''/tmp/out'') example_fs_broken)
        (parse_path ''/tmp/out/demo/app/main.py'') = None"
  by code_simp

text \<open>
  A project directory that is itself an asset path: the asset \<^verbatim>\<open>Dockerfile\<close> is missing, the
  project \<^verbatim>\<open>Dockerfile\<close> is made inside the assets directory, and the loop over the root
  manifest then finds a directory at the asset path. \<open>asset_ok\<close> excludes this.
\<close>

lemma project_at_asset_path_example:
  "example_fs (joinpath example_assets ''Dockerfile'') = None
   \<and> fst (create_project example_assets ''Dockerfile'' example_assets example_fs)
     = Raised (OSError EISDIR (Path Slash [''srv'', ''assets'', ''Dockerfile'']))"
  by code_simp

section \<open>The claims\<close>

text \<open>
  Claim C1, as the code has it. The \<^verbatim>\<open>.env.example\<close> file of a successful run does not
  depend on the project name: its content is always the fixed text \<open>env_text\<close>, whose
  first line is \<^verbatim>\<open>PROJECT_NAME=fastapi-app\<close>, the default of the generated settings class.
\<close>

theorem env_example_fixed:
  "create_project a name out fs = (Returned 0, fs') \<Longrightarrow>
     fs' (joinpath (joinpath out name) ''.env.example'') = Some (File env_text)"
  unfolding create_project_def
  by (erule create_project_with_success) (simp add: joinpath_env joinpath_readme)

theorem env_example_fixed_witness:
  "create_project example_assets ''demo'' (parse_path ''/tmp/out'') example_fs
     = (Returned 0, snd (create_project example_assets ''demo'' (parse_path ''/tmp/out'') example_fs))
   \<and> snd (create_project example_assets ''demo'' (parse_path ''/tmp/out'') example_fs)
       (joinpath (joinpath (parse_path ''/tmp/out'') ''demo'') ''.env.example'') = Some (File env_text)"
proof -
  have h: "create_project example_assets ''demo'' (parse_path ''/tmp/out'') example_fs
     = (Returned 0, snd (create_project example_assets ''demo'' (parse_path ''/tmp/out'') example_fs))"
    using example_run by (simp add: prod_eq_iff)
  show ?thesis using h env_example_fixed[OF h] by simp
qed

text \<open>
  Claim C1 as stated fails: after \<^verbatim>\<open>create("demo", "/tmp/out")\<close> the file holds neither the
  line \<^verbatim>\<open>PROJECT_NAME=demo\<close> nor the name \<^verbatim>\<open>demo\<close> anywhere.
\<close>

theorem env_example_counterexample:
  "fst (create_project example_assets ''demo'' (parse_path ''/tmp/out'') example_fs) = Returned 0
   \<and> snd (create_project example_assets ''demo'' (parse_path ''/tmp/out'') example_fs)
       (parse_path ''/tmp/out/demo/.env.example'') = Some (File env_text)
   \<and> \<not> sublist ''demo'' env_text
   \<and> ''PROJECT_NAME=demo'' \<notin> set (split_sep nl env_text)"
proof -
  have 1: "\<not> sublist ''demo'' env_text" by code_simp
  have 2: "''PROJECT_NAME=demo'' \<notin> set (split_sep nl env_text)" by code_simp
  have 3: "joinpath (joinpath (parse_path ''/tmp/out'') ''demo'') ''.env.example''
      \<noteq> joinpath (joinpath (parse_path ''/tmp/out'') ''demo'') ''README.md''"
    by (simp add: joinpath_env joinpath_readme)
  show ?thesis
    using 1 2 3 by (simp add: create_project_ok[OF example_scaffoldable(1)] example_paths)
qed

text \<open>
  Claim C2. If \<^verbatim>\<open>output_dir / project_name\<close> exists (as a file or as a directory, whatever is
  in it), the call returns 1 and the file system is unchanged; and after a call that returned
  0, a second call with the same arguments returns 1 and leaves the file system as the first
  call left it.
\<close>

theorem existing_project_rejected:
  "(exists fs (joinpath out name) \<longrightarrow> create_project a name out fs = (Returned 1, fs))
   \<and> (create_project a name out fs = (Returned 0, fs')
        \<longrightarrow> create_project a name out fs' = (Returned 1, fs'))"
proof (intro conjI impI)
  assume "exists fs (joinpath out name)"
  then show "create_project a name out fs = (Returned 1, fs)"
    by (simp add: create_project_def create_project_with_def)
next
  assume c: "create_project a name out fs = (Returned 0, fs')"
  then obtain fs1 where m: "mkdir (joinpath out name) True False fs = (None, fs1)"
      and g: "grows (joinpath out name) fs1 fs'"
  proof -
    from c[unfolded create_project_def] show ?thesis
    proof (rule create_project_with_success)
      fix fs1 fs2 fs3
      let ?d = "joinpath out name"
      assume 1: "mkdir ?d True False fs = (None, fs1)"
        and 2: "copy_templates a ?d TEMPLATES fs1 = (None, fs2)"
        and 3: "copy_root_files a ?d ROOT_FILES fs2 = (None, fs3)"
        and 4: "fs3 (joinpath ?d ''.env.example'') \<noteq> Some Dir"
               "fs3 (joinpath ?d ''README.md'') \<noteq> Some Dir"
        and 5: "fs' = fs3(joinpath ?d ''.env.example'' \<mapsto> File env_text,
              joinpath ?d ''README.md'' \<mapsto> File (readme_text name))"
      have g2: "grows ?d fs1 fs2"
        by (rule copy_templates_grows[OF _ 2]) (blast intro: templates_under)
      have g3: "grows ?d fs2 fs3"
        by (rule copy_root_files_grows[OF _ 3]) (blast intro: root_files_under)
      have e1: "strictly_under ?d (joinpath ?d ''.env.example'')"
        by (rule joinpath_strictly_under) simp_all
      have e2: "strictly_under ?d (joinpath ?d ''README.md'')"
        by (rule joinpath_strictly_under) simp_all
      have g4: "grows ?d fs3 (fs3(joinpath ?d ''.env.example'' \<mapsto> File env_text))"
        using e1 4(1) by (rule file_upd_grows)
      have g5: "grows ?d (fs3(joinpath ?d ''.env.example'' \<mapsto> File env_text)) fs'"
        unfolding 5 using e2
        by (rule file_upd_grows) (use 4(2) in \<open>simp add: joinpath_env joinpath_readme\<close>)
      show ?thesis
        by (rule that[OF 1]) (blast intro: grows_trans g2 g3 g4 g5)
    qed
  qed
  have "is_dir fs' (joinpath out name)"
    by (rule grows_is_dir[OF g mkdir_success_is_dir[OF m]])
  then have "exists fs' (joinpath out name)"
    by (simp add: is_dir_iff exists_iff)
  then show "create_project a name out fs' = (Returned 1, fs')"
    by (simp add: create_project_def create_project_with_def)
qed

theorem existing_project_rejected_witness:
  "exists example_fs (joinpath (Path Slash []) ''tmp'')
   \<and> create_project example_assets ''tmp'' (Path Slash []) example_fs = (Returned 1, example_fs)
   \<and> create_project example_assets ''demo'' (parse_path ''/tmp/out'') example_fs
       = (Returned 0, snd (create_project example_assets ''demo'' (parse_path ''/tmp/out'') example_fs))
   \<and> create_project example_assets ''demo'' (parse_path ''/tmp/out'')
         (snd (create_project example_assets ''demo'' (parse_path ''/tmp/out'') example_fs))
       = (Returned 1, snd (create_project example_assets ''demo'' (parse_path ''/tmp/out'') example_fs))"
proof -
  have e: "exists example_fs (joinpath (Path Slash []) ''tmp'')" by code_simp
  show ?thesis
    using e example_run_pair
      existing_project_rejected[of example_fs "Path Slash []" "''tmp''" example_assets]
      existing_project_rejected[of example_fs "parse_path ''/tmp/out''" "''demo''" example_assets
        "snd (create_project example_assets ''demo'' (parse_path ''/tmp/out'') example_fs)"]
    by simp
qed

text \<open>
  Claim C3, as the code has it. On a well-formed file system, take a project name that is
  one usable path component (\<open>single_segment\<close>: 1 to 255 ASCII characters, no NUL, no
  \<^verbatim>\<open>/\<close>, not \<^verbatim>\<open>.\<close> or \<^verbatim>\<open>..\<close>), an output directory that exists and is empty, and the
  script present in its directory with no asset path a directory; the paths of the output
  directory and of the script's directory are made of such components, leave room for the
  names appended to them (\<open>roomy\<close>) and have the same root. Then the call returns 0 and
  every path of the layout exists: each file of the nested manifest holds
  \<open>content fs a e\<close>, which is empty for an empty template key and otherwise the content of
  the asset (empty when the asset is missing); each root file is there exactly when its asset
  is; and the two synthesized files are written.
\<close>

theorem layout_created:
  assumes "wf_fs fs" "single_segment name" "empty_dir fs out"
    "fs (joinpath a ''init_project.py'') \<noteq> None"
    "\<forall>k\<in>set asset_keys. fs (joinpath a k) \<noteq> Some Dir"
    "roomy out" "roomy a" "anchor a = anchor out"
  shows "fst (create_project a name out fs) = Returned 0
    \<and> (\<forall>e\<in>set TEMPLATES.
          snd (create_project a name out fs) (joinpath (joinpath out name) (fst e))
            = Some (File (content fs a e)))
    \<and> (\<forall>e\<in>set ROOT_FILES.
          snd (create_project a name out fs) (joinpath (joinpath out name) (fst e))
            = (case fs (joinpath a (snd e)) of Some (File c) \<Rightarrow> Some (File c) | _ \<Rightarrow> None))
    \<and> snd (create_project a name out fs) (joinpath (joinpath out name) ''.env.example'')
          = Some (File env_text)
    \<and> snd (create_project a name out fs) (joinpath (joinpath out name) ''README.md'')
          = Some (File (readme_text name))"
proof -
  have sc: "scaffoldable a (joinpath out name) fs" by (rule empty_dir_scaffoldable[OF assms])
  have "joinpath (joinpath out name) ''.env.example'' \<noteq> joinpath (joinpath out name) ''README.md''"
    by (simp add: joinpath_env joinpath_readme)
  then show ?thesis
    using final_template[OF sc] final_root_file[OF sc]
    by (simp add: create_project_ok[OF sc])
qed

theorem layout_created_witness:
  "wf_fs example_fs \<and> single_segment ''demo'' \<and> empty_dir example_fs (parse_path ''/tmp/out'')
   \<and> example_fs (joinpath example_assets ''init_project.py'') \<noteq> None
   \<and> roomy (parse_path ''/tmp/out'') \<and> roomy example_assets
   \<and> anchor example_assets = anchor (parse_path ''/tmp/out'')
   \<and> fst (create_project example_assets ''demo'' (parse_path ''/tmp/out'') example_fs) = Returned 0
   \<and> snd (create_project example_assets ''demo'' (parse_path ''/tmp/out'') example_fs)
        (joinpath (joinpath (parse_path ''/tmp/out'') ''demo'') ''app/__init__.py'') = Some (File [])
   \<and> snd (create_project example_assets ''demo'' (parse_path ''/tmp/out'') example_fs)
        (joinpath (joinpath (parse_path ''/tmp/out'') ''demo'') ''tests/conftest.py'') = Some (File [])
   \<and> snd (create_project example_assets ''demo'' (parse_path ''/tmp/out'') example_fs)
        (joinpath (joinpath (parse_path ''/tmp/out'') ''demo'') ''app/main.py'')
        = Some (File ''from contextlib import asynccontextmanager'')"
proof -
  note T = layout_created[OF example_wf(1) example_segment example_empty(1) example_script(1)
      example_keys(1) example_roomy(1,2,3)]
  from T have "\<forall>e\<in>set TEMPLATES.
          snd (create_project example_assets ''demo'' (parse_path ''/tmp/out'') example_fs)
            (joinpath (joinpath (parse_path ''/tmp/out'') ''demo'') (fst e))
            = Some (File (content example_fs example_assets e))" by blast
  from this[rule_format, OF example_members(1)] this[rule_format, OF example_members(3)]
    this[rule_format, OF example_members(4)] T
  show ?thesis
    using example_wf(1) example_segment example_empty(1) example_script(1) example_roomy(1,2,3)
    by (simp add: example_contents)
qed

text \<open>
  Claim C3 as stated fails for \<^verbatim>\<open>app/routers/__init__.py\<close>: the manifest gives it the
  template key \<^verbatim>\<open>routers_init.py\<close>, so with that asset present the file is not empty.
\<close>

theorem layout_created_counterexample:
  "single_segment ''demo'' \<and> empty_dir example_fs (parse_path ''/tmp/out'')
   \<and> fst (create_project example_assets ''demo'' (parse_path ''/tmp/out'') example_fs) = Returned 0
   \<and> snd (create_project example_assets ''demo'' (parse_path ''/tmp/out'') example_fs)
        (joinpath (joinpath (parse_path ''/tmp/out'') ''demo'') ''app/routers/__init__.py'')
        = Some (File ''from fastapi import APIRouter'')
   \<and> ''from fastapi import APIRouter'' \<noteq> []"
  using example_segment example_empty(1)
    final_template[OF example_scaffoldable(1) example_members(2)]
  by (simp add: create_project_ok[OF example_scaffoldable(1)] example_contents)

text \<open>
  Claim C4, as the code has it. For a project name without a line feed, the README of a
  successful run is \<open>readme_text name\<close> and its first line is \<^verbatim>\<open># \<close> followed by the
  project name.
\<close>

theorem readme_first_line:
  assumes "nl \<notin> set name" "create_project a name out fs = (Returned 0, fs')"
  shows "fs' (joinpath (joinpath out name) ''README.md'') = Some (File (readme_text name))
       \<and> first_line (readme_text name) = ''# '' @ name"
proof
  show "fs' (joinpath (joinpath out name) ''README.md'') = Some (File (readme_text name))"
    using assms(2) unfolding create_project_def
    by (rule create_project_with_success) simp
  have "takeWhile (\<lambda>c. c \<noteq> nl) ((''# '' @ name) @ nl # (nl # ''FastAPI Clean Architecture Application'' @ [nl]))
      = takeWhile (\<lambda>c. c \<noteq> nl) (''# '' @ name)"
    by (rule takeWhile_tail) simp
  also have "\<dots> = ''# '' @ name"
    using assms(1) by (auto simp: takeWhile_eq_all_conv nl_def)
  finally show "first_line (readme_text name) = ''# '' @ name"
    by (simp add: first_line_def readme_text_def)
qed

theorem readme_first_line_witness:
  "nl \<notin> set ''demo''
   \<and> create_project example_assets ''demo'' (parse_path ''/tmp/out'') example_fs
       = (Returned 0, snd (create_project example_assets ''demo'' (parse_path ''/tmp/out'') example_fs))
   \<and> snd (create_project example_assets ''demo'' (parse_path ''/tmp/out'') example_fs)
        (joinpath (joinpath (parse_path ''/tmp/out'') ''demo'') ''README.md'')
       = Some (File (readme_text ''demo''))
   \<and> first_line (readme_text ''demo'') = ''# demo''"
proof -
  have n: "nl \<notin> set ''demo''" by (simp add: nl_def)
  show ?thesis using n example_run_pair readme_first_line[OF n example_run_pair] by simp
qed

text \<open>
  Claim C4 as stated fails for a project name that contains a line feed: the run succeeds, and
  the first line of the README stops at the line feed, so the name is not in it.
\<close>

theorem readme_first_line_counterexample:
  "fst (create_project example_assets [CHR ''a'', nl, CHR ''b''] (parse_path ''/tmp/out'') example_fs)
     = Returned 0
   \<and> snd (create_project example_assets [CHR ''a'', nl, CHR ''b''] (parse_path ''/tmp/out'') example_fs)
        (joinpath (joinpath (parse_path ''/tmp/out'') [CHR ''a'', nl, CHR ''b'']) ''README.md'')
       = Some (File (readme_text [CHR ''a'', nl, CHR ''b'']))
   \<and> \<not> sublist [CHR ''a'', nl, CHR ''b''] (first_line (readme_text [CHR ''a'', nl, CHR ''b'']))"
proof -
  have h: "create_project example_assets [CHR ''a'', nl, CHR ''b''] (parse_path ''/tmp/out'') example_fs
     = (Returned 0, snd (create_project example_assets [CHR ''a'', nl, CHR ''b''] (parse_path ''/tmp/out'') example_fs))"
    using newline_name_run by (simp add: prod_eq_iff)
  have s: "\<not> sublist [CHR ''a'', nl, CHR ''b''] (first_line (readme_text [CHR ''a'', nl, CHR ''b'']))"
    by code_simp
  show ?thesis using newline_name_run readme_written[OF h] s by simp
qed

text \<open>
  Claim C5. When the run can go ahead (\<open>scaffoldable\<close>: the project directory does not exist,
  no regular file is in the way above it, every path of the run is made of usable names within
  the limits of the system, and every asset path has the root of the project directory, is
  not a directory and lies neither above nor under the project directory), an entry of the
  nested manifest with a non-empty template key does not stop the run: the call returns 0,
  its target is an empty file when the asset is missing, and holds the content of the asset
  when the asset is there.
\<close>

theorem missing_template_degrades:
  assumes "scaffoldable a (joinpath out name) fs" "(t, k) \<in> set TEMPLATES" "k \<noteq> []"
  shows "fst (create_project a name out fs) = Returned 0
     \<and> (fs (joinpath a k) = None \<longrightarrow>
          snd (create_project a name out fs) (joinpath (joinpath out name) t) = Some (File []))
     \<and> (\<forall>c. fs (joinpath a k) = Some (File c) \<longrightarrow>
          snd (create_project a name out fs) (joinpath (joinpath out name) t) = Some (File c))"
  using final_template[OF assms(1,2)] assms(3)
  by (auto simp: create_project_ok[OF assms(1)] content_def)

theorem missing_template_degrades_witness:
  "scaffoldable example_assets (joinpath (parse_path ''/tmp/out'') ''demo'') example_fs
   \<and> (''tests/conftest.py'', ''conftest.py'') \<in> set TEMPLATES
   \<and> example_fs (joinpath example_assets ''conftest.py'') = None
   \<and> fst (create_project example_assets ''demo'' (parse_path ''/tmp/out'') example_fs) = Returned 0
   \<and> snd (create_project example_assets ''demo'' (parse_path ''/tmp/out'') example_fs)
        (joinpath (joinpath (parse_path ''/tmp/out'') ''demo'') ''tests/conftest.py'') = Some (File [])
   \<and> (''app/main.py'', ''main.py'') \<in> set TEMPLATES
   \<and> example_fs (joinpath example_assets ''main.py'')
        = Some (File ''from contextlib import asynccontextmanager'')
   \<and> snd (create_project example_assets ''demo'' (parse_path ''/tmp/out'') example_fs)
        (joinpath (joinpath (parse_path ''/tmp/out'') ''demo'') ''app/main.py'')
        = Some (File ''from contextlib import asynccontextmanager'')"
proof -
  have 1: "example_fs (joinpath example_assets ''conftest.py'') = None" by code_simp
  have 2: "example_fs (joinpath example_assets ''main.py'')
        = Some (File ''from contextlib import asynccontextmanager'')" by code_simp
  show ?thesis
    using example_scaffoldable(1) example_members(3,4) 1 2
      missing_template_degrades[OF example_scaffoldable(1) example_members(3)]
      missing_template_degrades[OF example_scaffoldable(1) example_members(4)]
    by simp
qed

text \<open>
  Claim C6. When the run can go ahead (\<open>scaffoldable\<close>, which asks for usable paths and
  for assets apart from the project directory), an entry of the root manifest whose asset is
  missing is skipped: the call returns 0 and nothing exists at the entry's target.
\<close>

theorem missing_root_file_skipped:
  assumes "scaffoldable a (joinpath out name) fs" "(t, k) \<in> set ROOT_FILES"
    "fs (joinpath a k) = None"
  shows "fst (create_project a name out fs) = Returned 0
     \<and> snd (create_project a name out fs) (joinpath (joinpath out name) t) = None"
  using final_root_file[OF assms(1,2)] assms(3)
  by (simp add: create_project_ok[OF assms(1)])

theorem missing_root_file_skipped_witness:
  "scaffoldable example_assets (joinpath (parse_path ''/tmp/out'') ''demo'') example_fs
   \<and> (''Dockerfile'', ''Dockerfile'') \<in> set ROOT_FILES
   \<and> example_fs (joinpath example_assets ''Dockerfile'') = None
   \<and> fst (create_project example_assets ''demo'' (parse_path ''/tmp/out'') example_fs) = Returned 0
   \<and> snd (create_project example_assets ''demo'' (parse_path ''/tmp/out'') example_fs)
        (joinpath (joinpath (parse_path ''/tmp/out'') ''demo'') ''Dockerfile'') = None"
proof -
  have 1: "example_fs (joinpath example_assets ''Dockerfile'') = None" by code_simp
  show ?thesis
    using example_scaffoldable(1) example_members(5) 1
      missing_root_file_skipped[OF example_scaffoldable(1) example_members(5) 1]
    by simp
qed




text \<open>
  Claim C8, as the code has it. With an empty project name the project directory is the
  output directory itself: if that exists the call returns 1 and changes nothing; if it does
  not exist the call does not return 1, and when the run can go ahead (\<open>scaffoldable\<close>:
  among others the output directory is a path of usable names, so without \<^verbatim>\<open>..\<close>) it
  returns 0 and writes the project, the README with an empty title among it, into the output
  directory.
\<close>

theorem empty_project_name:
  "joinpath out [] = out
   \<and> (exists fs out \<longrightarrow> create_project a [] out fs = (Returned 1, fs))
   \<and> (\<not> exists fs out \<longrightarrow> fst (create_project a [] out fs) \<noteq> Returned 1)
   \<and> (scaffoldable a out fs \<longrightarrow>
         fst (create_project a [] out fs) = Returned 0
         \<and> snd (create_project a [] out fs) (joinpath out ''README.md'')
             = Some (File (readme_text [])))"
proof -
  have j: "joinpath out [] = out" by (cases out) (simp add: joinpath_def rel_parts_def)
  have "fst (create_project a [] out fs) \<noteq> Returned 1" if "\<not> exists fs out"
  proof -
    obtain res fs' where c: "create_project a [] out fs = (res, fs')" by fastforce
    from c[unfolded create_project_def] have "res \<noteq> Returned 1"
    proof (cases rule: create_project_with_cases)
      case rejected
      then show ?thesis using that j by simp
    next
      case (ran x)
      then show ?thesis by (cases x) auto
    qed
    then show ?thesis using c by simp
  qed
  moreover have "fst (create_project a [] out fs) = Returned 0
         \<and> snd (create_project a [] out fs) (joinpath out ''README.md'')
             = Some (File (readme_text []))" if "scaffoldable a out fs"
  proof -
    from that have "scaffoldable a (joinpath out []) fs" by (simp add: j)
    from create_project_ok[OF this] show ?thesis by (simp add: j)
  qed
  ultimately show ?thesis using j by (simp add: create_project_def create_project_with_def)
qed

theorem empty_project_name_witness:
  "exists example_fs (parse_path ''/tmp/out'')
   \<and> create_project example_assets [] (parse_path ''/tmp/out'') example_fs = (Returned 1, example_fs)
   \<and> \<not> exists example_fs (parse_path ''/tmp/new'')
   \<and> fst (create_project example_assets [] (parse_path ''/tmp/new'') example_fs) \<noteq> Returned 1
   \<and> scaffoldable example_assets (parse_path ''/tmp/new'') example_fs
   \<and> fst (create_project example_assets [] (parse_path ''/tmp/new'') example_fs) = Returned 0
   \<and> snd (create_project example_assets [] (parse_path ''/tmp/new'') example_fs)
        (joinpath (parse_path ''/tmp/new'') ''README.md'') = Some (File (readme_text []))"
proof -
  have 1: "exists example_fs (parse_path ''/tmp/out'')" by code_simp
  have 2: "\<not> exists example_fs (parse_path ''/tmp/new'')" by code_simp
  show ?thesis
    using 1 2 empty_name_scaffoldable
      empty_project_name[of "parse_path ''/tmp/out''" example_fs example_assets]
      empty_project_name[of "parse_path ''/tmp/new''" example_fs example_assets]
    by simp
qed

text \<open>
  Claim C8 as stated fails: with an empty project name and an output directory that does not
  exist yet, the call returns 0 and writes the project into the output directory.
\<close>

theorem empty_project_name_counterexample:
  "fst (create_project example_assets [] (parse_path ''/tmp/new'') example_fs) = Returned 0
   \<and> snd (create_project example_assets [] (parse_path ''/tmp/new'') example_fs)
        (parse_path ''/tmp/new/README.md'') \<noteq> example_fs (parse_path ''/tmp/new/README.md'')"
proof -
  have j: "joinpath (parse_path ''/tmp/new'') [] = parse_path ''/tmp/new''" by code_simp
  have p: "joinpath (parse_path ''/tmp/new'') ''README.md'' = parse_path ''/tmp/new/README.md''"
    by code_simp
  have n: "example_fs (parse_path ''/tmp/new/README.md'') = None" by code_simp
  from empty_name_scaffoldable have "scaffoldable example_assets
      (joinpath (parse_path ''/tmp/new'') []) example_fs" by (simp add: j)
  from create_project_ok[OF this] show ?thesis by (simp add: j p n)
qed

text \<open>
  Claim C9, as the code has it. Take manifests whose targets are relative paths made of
  usable names (so without \<^verbatim>\<open>..\<close>), pairwise different, none a proper prefix of another,
  the root targets single segments (\<open>layout_ok\<close>); a project directory and targets within
  the limits of the system (\<open>paths_usable\<close>); and asset paths that are usable, have the root
  of the project directory, are not directories and lie neither above nor under the project
  directory (\<open>assets_ok\<close>). On a well-formed file system, running the call with any
  permutation of the two manifests gives the same outcome and the same file system.
\<close>

theorem manifest_order_irrelevant:
  assumes wf: "wf_fs fs" and lay: "layout_ok n r"
    and ast: "assets_ok a (joinpath out name) n r fs"
    and pn: "mset n' = mset n" and pr: "mset r' = mset r"
    and pu: "paths_usable (joinpath out name) n r"
  shows "create_project_with n' r' a name out fs = create_project_with n r a name out fs"
proof (cases "exists fs (joinpath out name)")
  case True
  then show ?thesis by (simp add: create_project_with_def)
next
  case False
  let ?d = "joinpath out name"
  from False have d: "fs ?d = None" using wf by (simp add: wf_exists)
  obtain x fs1 where mk: "mkdir ?d True False fs = (x, fs1)" by fastforce
  show ?thesis
  proof (cases x)
    case (Some e)
    then show ?thesis using False mk by (simp add: create_project_with_def Let_def seq_def)
  next
    case None
    have nf: "\<forall>q. under q ?d \<longrightarrow> (\<forall>c. fs q \<noteq> Some (File c))"
      using mkdir_success_no_file[OF mk[unfolded None]] by blast
    note A = loops_ok[OF wf d nf lay ast]
    note B = loops_ok[OF wf d nf layout_ok_perm[OF pn pr lay] assets_ok_perm[OF pn pr ast]]
    have "nested_result a ?d n' (mk_dirs ?d fs) = nested_result a ?d n (mk_dirs ?d fs)"
      by (rule nested_result_perm[OF pn layout_distinct(1)[OF lay]])
    moreover have "root_result a ?d r' (nested_result a ?d n (mk_dirs ?d fs))
        = root_result a ?d r (nested_result a ?d n (mk_dirs ?d fs))"
      by (rule root_result_perm[OF pr layout_distinct(2)[OF lay]])
    ultimately have eq: "root_result a ?d r' (nested_result a ?d n' (mk_dirs ?d fs))
        = root_result a ?d r (nested_result a ?d n (mk_dirs ?d fs))" by simp
    show ?thesis
      using False A(1-3) B(1-3) eq by (simp add: create_project_with_def Let_def seq_def)
  qed
qed

theorem manifest_order_irrelevant_witness:
  "wf_fs example_fs \<and> layout_ok TEMPLATES ROOT_FILES
   \<and> assets_ok example_assets (joinpath (parse_path ''/tmp/out'') ''demo'') TEMPLATES ROOT_FILES example_fs
   \<and> mset (rev TEMPLATES) = mset TEMPLATES \<and> mset (rev ROOT_FILES) = mset ROOT_FILES
   \<and> paths_usable (joinpath (parse_path ''/tmp/out'') ''demo'') TEMPLATES ROOT_FILES
   \<and> create_project_with (rev TEMPLATES) (rev ROOT_FILES) example_assets ''demo''
        (parse_path ''/tmp/out'') example_fs
      = create_project_with TEMPLATES ROOT_FILES example_assets ''demo''
        (parse_path ''/tmp/out'') example_fs"
proof -
  have a: "assets_ok example_assets (joinpath (parse_path ''/tmp/out'') ''demo'') TEMPLATES ROOT_FILES example_fs"
    using example_scaffoldable(1) by (simp add: scaffoldable_def)
  have p: "mset (rev TEMPLATES) = mset TEMPLATES" "mset (rev ROOT_FILES) = mset ROOT_FILES"
    by simp_all
  have u: "paths_usable (joinpath (parse_path ''/tmp/out'') ''demo'') TEMPLATES ROOT_FILES"
    using example_scaffoldable(1) by (simp add: scaffoldable_def)
  show ?thesis
    using example_wf(1) fixed_layout a p u
      manifest_order_irrelevant[OF example_wf(1) fixed_layout a p u]
    by simp
qed

text \<open>
  Claim C9 as stated fails for a manifest with the unique targets \<^verbatim>\<open>a/b\<close> and \<^verbatim>\<open>a\<close>: in
  this order the call returns 0 (the directory \<^verbatim>\<open>a\<close> is made, then touched); in the other
  order \<^verbatim>\<open>a\<close> becomes a file and making the directory \<^verbatim>\<open>a\<close> raises \<^verbatim>\<open>FileExistsError\<close>.
\<close>

theorem manifest_order_counterexample:
  "distinct (map fst [(''a/b'', ''''), (''a'', '''')])
   \<and> mset (rev [(''a/b'', ''''), (''a'', '''')]) = mset [(''a/b'', ''''), (''a'', '''')]
   \<and> fst (create_project_with [(''a/b'', ''''), (''a'', '''')] [] example_assets ''demo''
        (parse_path ''/tmp/out'') example_fs) = Returned 0
   \<and> fst (create_project_with (rev [(''a/b'', ''''), (''a'', '''')]) [] example_assets ''demo''
        (parse_path ''/tmp/out'') example_fs)
      = Raised (OSError EEXIST (parse_path ''/tmp/out/demo/a''))"
proof -
  have 1: "fst (create_project_with [(''a/b'', ''''), (''a'', '''')] [] example_assets ''demo''
        (parse_path ''/tmp/out'') example_fs) = Returned 0" by code_simp
  have 2: "fst (create_project_with (rev [(''a/b'', ''''), (''a'', '''')]) [] example_assets ''demo''
        (parse_path ''/tmp/out'') example_fs)
      = Raised (OSError EEXIST (parse_path ''/tmp/out/demo/a''))" by code_simp
  show ?thesis using 1 2 by simp
qed

text \<open>
  Claim C10, as the code has it. Every path that a call changes lies strictly under the
  project directory, or is the project directory or one of its ancestors, was absent before
  and is a directory afterwards.
\<close>

theorem writes_confined:
  assumes "create_project a name out fs = (res, fs')" "fs' q \<noteq> fs q"
  shows "strictly_under (joinpath out name) q
       \<or> (under q (joinpath out name) \<and> fs q = None \<and> fs' q = Some Dir)"
  using create_project_grows[OF assms(1)] assms(2) unfolding grows_def by blast

theorem writes_confined_witness:
  "create_project example_assets ''demo'' (parse_path ''/tmp/out'') example_fs
       = (Returned 0, snd (create_project example_assets ''demo'' (parse_path ''/tmp/out'') example_fs))
   \<and> snd (create_project example_assets ''demo'' (parse_path ''/tmp/out'') example_fs)
        (joinpath (joinpath (parse_path ''/tmp/out'') ''demo'') ''README.md'')
       \<noteq> example_fs (joinpath (joinpath (parse_path ''/tmp/out'') ''demo'') ''README.md'')
   \<and> strictly_under (joinpath (parse_path ''/tmp/out'') ''demo'')
        (joinpath (joinpath (parse_path ''/tmp/out'') ''demo'') ''README.md'')"
proof -
  have 1: "example_fs (joinpath (joinpath (parse_path ''/tmp/out'') ''demo'') ''README.md'') = None"
    by code_simp
  have 2: "snd (create_project example_assets ''demo'' (parse_path ''/tmp/out'') example_fs)
        (joinpath (joinpath (parse_path ''/tmp/out'') ''demo'') ''README.md'')
       \<noteq> example_fs (joinpath (joinpath (parse_path ''/tmp/out'') ''demo'') ''README.md'')"
    using readme_written[OF example_run_pair] 1 by simp
  show ?thesis
    using example_run_pair 2 writes_confined[OF example_run_pair 2] 1 readme_written[OF example_run_pair]
    by simp
qed

text \<open>
  Claim C10 as stated fails: \<^verbatim>\<open>mkdir(parents=True)\<close> also creates the missing directories
  above the project directory, here \<^verbatim>\<open>/tmp/new\<close>.
\<close>

theorem writes_confined_counterexample:
  "single_segment ''demo''
   \<and> snd (create_project example_assets ''demo'' (parse_path ''/tmp/new/out'') example_fs)
        (parse_path ''/tmp/new'') = Some Dir
   \<and> example_fs (parse_path ''/tmp/new'') = None
   \<and> \<not> strictly_under (joinpath (parse_path ''/tmp/new/out'') ''demo'') (parse_path ''/tmp/new'')"
  by code_simp

end
